theory Spec2Isabelle
  imports Complex_Main "HOL-Library.AList" "HOL-Library.Multiset"
begin

section \<open>JavaScript numbers\<close>

text \<open>
  Every amount of the store is a JavaScript Number: an IEEE 754 binary64 value.  A finite
  value is modelled by the real number it denotes, the two infinities and NaN are values
  of their own.  The sign of zero is not modelled (no function below divides by a zero or
  prints one).  Each arithmetic operation computes the exact real result and rounds it to
  the nearest binary64 value, ties to the even significand, overflowing to an infinity.
\<close>

datatype jsnum = NaN | NInf | Fin real | PInf

definition round_even :: "real \<Rightarrow> int" where
  "round_even x = (let f = \<lfloor>x\<rfloor>; d = x - of_int f in
     if d < 1 / 2 then f else if 1 / 2 < d then f + 1 else if even f then f else f + 1)"

text \<open>
  \<open>ulp_search n e a\<close> is the least exponent \<open>e'\<close> among \<open>e, e + 1, \<dots>, e + n - 1\<close> with
  \<open>a < 2 ^ (e' + 53)\<close>: the exponent of the unit in the last place of a 53-bit significand
  that holds \<open>a\<close>.  Binary64 has the exponents \<open>-1074 \<dots> 971\<close>.
\<close>

fun ulp_search :: "nat \<Rightarrow> int \<Rightarrow> real \<Rightarrow> int option" where
  "ulp_search 0 e a = None"
| "ulp_search (Suc n) e a = (if a < 2 powi (e + 53) then Some e else ulp_search n (e + 1) a)"

definition overflow :: "real \<Rightarrow> jsnum" where
  "overflow x = (if x < 0 then NInf else PInf)"

definition fl :: "real \<Rightarrow> jsnum" where
  "fl x = (case ulp_search 2046 (- 1074) \<bar>x\<bar> of
      None \<Rightarrow> overflow x
    | Some e \<Rightarrow> (let r = of_int (round_even (x / 2 powi e)) * 2 powi e in
         if 2 powi 1024 \<le> \<bar>r\<bar> then overflow x else Fin r))"

text \<open>The finite binary64 values are the numbers that rounding leaves as they are.\<close>

definition binary64 :: "real \<Rightarrow> bool" where
  "binary64 x = (fl x = Fin x)"

text \<open>A Number other than NaN: an infinity or a finite binary64 value.\<close>

definition numeric :: "jsnum \<Rightarrow> bool" where
  "numeric a = (case a of NaN \<Rightarrow> False | Fin x \<Rightarrow> binary64 x | _ \<Rightarrow> True)"

definition jneg :: "jsnum \<Rightarrow> jsnum" where
  "jneg a = (case a of NaN \<Rightarrow> NaN | NInf \<Rightarrow> PInf | PInf \<Rightarrow> NInf | Fin x \<Rightarrow> Fin (- x))"

definition jadd :: "jsnum \<Rightarrow> jsnum \<Rightarrow> jsnum" where
  "jadd a b = (case (a, b) of
      (NaN, _) \<Rightarrow> NaN | (_, NaN) \<Rightarrow> NaN
    | (PInf, NInf) \<Rightarrow> NaN | (NInf, PInf) \<Rightarrow> NaN
    | (PInf, _) \<Rightarrow> PInf | (_, PInf) \<Rightarrow> PInf
    | (NInf, _) \<Rightarrow> NInf | (_, NInf) \<Rightarrow> NInf
    | (Fin x, Fin y) \<Rightarrow> fl (x + y))"

definition jsub :: "jsnum \<Rightarrow> jsnum \<Rightarrow> jsnum" where
  "jsub a b = (case (a, b) of
      (NaN, _) \<Rightarrow> NaN | (_, NaN) \<Rightarrow> NaN
    | (PInf, PInf) \<Rightarrow> NaN | (NInf, NInf) \<Rightarrow> NaN
    | (PInf, _) \<Rightarrow> PInf | (_, NInf) \<Rightarrow> PInf
    | (NInf, _) \<Rightarrow> NInf | (_, PInf) \<Rightarrow> NInf
    | (Fin x, Fin y) \<Rightarrow> fl (x - y))"

text \<open>Comparison: every comparison with NaN is false.\<close>

definition jlt :: "jsnum \<Rightarrow> jsnum \<Rightarrow> bool" where
  "jlt a b = (case (a, b) of
      (NaN, _) \<Rightarrow> False | (_, NaN) \<Rightarrow> False
    | (_, NInf) \<Rightarrow> False | (PInf, _) \<Rightarrow> False
    | (NInf, _) \<Rightarrow> True | (_, PInf) \<Rightarrow> True
    | (Fin x, Fin y) \<Rightarrow> x < y)"

definition jle :: "jsnum \<Rightarrow> jsnum \<Rightarrow> bool" where
  "jle a b = (a \<noteq> NaN \<and> b \<noteq> NaN \<and> (a = b \<or> jlt a b))"

definition isNaN :: "jsnum \<Rightarrow> bool" where
  "isNaN a = (a = NaN)"

definition Math_max :: "jsnum \<Rightarrow> jsnum \<Rightarrow> jsnum" where
  "Math_max a b = (if a = NaN \<or> b = NaN then NaN else if jlt a b then b else a)"

definition Math_min :: "jsnum \<Rightarrow> jsnum \<Rightarrow> jsnum" where
  "Math_min a b = (if a = NaN \<or> b = NaN then NaN else if jlt b a then b else a)"

definition jmul :: "jsnum \<Rightarrow> jsnum \<Rightarrow> jsnum" where
  "jmul a b = (case (a, b) of
      (NaN, _) \<Rightarrow> NaN | (_, NaN) \<Rightarrow> NaN
    | (Fin x, Fin y) \<Rightarrow> fl (x * y)
    | (Fin x, i) \<Rightarrow> (if x = 0 then NaN else if (0 < x) = (i = PInf) then PInf else NInf)
    | (i, Fin y) \<Rightarrow> (if y = 0 then NaN else if (0 < y) = (i = PInf) then PInf else NInf)
    | (i, j) \<Rightarrow> (if i = j then PInf else NInf))"

text \<open>Division; a zero divisor is taken as \<open>+0\<close>.\<close>

definition jdiv :: "jsnum \<Rightarrow> jsnum \<Rightarrow> jsnum" where
  "jdiv a b = (case (a, b) of
      (NaN, _) \<Rightarrow> NaN | (_, NaN) \<Rightarrow> NaN
    | (Fin x, Fin y) \<Rightarrow>
        (if y = 0 then (if x = 0 then NaN else if 0 < x then PInf else NInf) else fl (x / y))
    | (Fin x, _) \<Rightarrow> Fin 0
    | (i, Fin y) \<Rightarrow> (if (0 \<le> y) = (i = PInf) then PInf else NInf)
    | (_, _) \<Rightarrow> NaN)"

text \<open>\<open>Math.pow(x, 2)\<close> is taken as the correctly rounded product \<open>x * x\<close>.\<close>

definition Math_pow2 :: "jsnum \<Rightarrow> jsnum" where
  "Math_pow2 a = jmul a a"

definition Math_sqrt :: "jsnum \<Rightarrow> jsnum" where
  "Math_sqrt a = (case a of
      NaN \<Rightarrow> NaN | NInf \<Rightarrow> NaN | PInf \<Rightarrow> PInf
    | Fin x \<Rightarrow> (if x < 0 then NaN else fl (sqrt x)))"

text \<open>\<open>n || 0\<close> on a number: NaN and zero are falsy.\<close>

definition or0 :: "jsnum \<Rightarrow> jsnum" where
  "or0 n = (if n = NaN \<or> n = Fin 0 then Fin 0 else n)"

section \<open>Raw field values and \<open>parseFloat\<close>\<close>

text \<open>
  A field of an uploaded row is a string, a number, or absent (\<open>string | number\<close> and
  optional fields in the interfaces of the store).
\<close>

datatype jsval = Undefined | JStr string | JNum jsnum

definition truthy :: "jsval \<Rightarrow> bool" where
  "truthy v = (case v of Undefined \<Rightarrow> False | JStr s \<Rightarrow> s \<noteq> [] | JNum n \<Rightarrow> n \<noteq> NaN \<and> n \<noteq> Fin 0)"

definition js_or :: "jsval \<Rightarrow> jsval \<Rightarrow> jsval" where
  "js_or a b = (if truthy a then a else b)"

definition is_ws :: "char \<Rightarrow> bool" where
  "is_ws c = (let n = (of_char c :: nat) in n = 32 \<or> (9 \<le> n \<and> n \<le> 13))"

definition is_digit :: "char \<Rightarrow> bool" where
  "is_digit c = (let n = (of_char c :: nat) in 48 \<le> n \<and> n \<le> 57)"

definition digits_val :: "string \<Rightarrow> int" where
  "digits_val ds = foldl (\<lambda>a c. 10 * a + (of_char c - 48)) 0 ds"

text \<open>The exponent part \<open>e[+-]digits\<close> at the head of a string; 0 when there is none.\<close>

definition parse_exponent :: "string \<Rightarrow> int" where
  "parse_exponent s = (case s of
      [] \<Rightarrow> 0
    | c # r \<Rightarrow>
        (if c = CHR ''e'' \<or> c = CHR ''E'' then
           (case r of
              [] \<Rightarrow> 0
            | d # t \<Rightarrow>
                (if d = CHR ''-'' then
                   (if takeWhile is_digit t = [] then 0 else - digits_val (takeWhile is_digit t))
                 else if d = CHR ''+'' then digits_val (takeWhile is_digit t)
                 else digits_val (takeWhile is_digit r)))
         else 0))"

definition parse_unsigned :: "string \<Rightarrow> jsnum" where
  "parse_unsigned s =
     (if take 8 s = ''Infinity'' then PInf
      else
        let ip = takeWhile is_digit s;
            r1 = dropWhile is_digit s;
            fp = (case r1 of [] \<Rightarrow> [] | c # t \<Rightarrow> (if c = CHR ''.'' then takeWhile is_digit t else []));
            r2 = (case r1 of [] \<Rightarrow> [] | c # t \<Rightarrow> (if c = CHR ''.'' then dropWhile is_digit t else r1))
        in if ip = [] \<and> fp = [] then NaN
           else fl (of_int (digits_val (ip @ fp)) * 10 powi (parse_exponent r2 - int (length fp))))"

text \<open>
  \<open>parseFloat\<close>: leading white space is skipped, then the longest prefix that is a decimal
  literal is read and rounded; NaN when there is none.
\<close>

definition parseFloat :: "string \<Rightarrow> jsnum" where
  "parseFloat s = (case dropWhile is_ws s of
      [] \<Rightarrow> NaN
    | c # r \<Rightarrow>
        (if c = CHR ''-'' then jneg (parse_unsigned r)
         else if c = CHR ''+'' then parse_unsigned r
         else parse_unsigned (c # r)))"

text \<open>
  \<open>parseFloat(String(v))\<close>.  A number is written by \<open>String\<close> and read back unchanged;
  \<open>String(undefined)\<close> is the text \<open>undefined\<close>, which is not a number.
\<close>

definition parseFloat_String :: "jsval \<Rightarrow> jsnum" where
  "parseFloat_String v = (case v of Undefined \<Rightarrow> NaN | JStr s \<Rightarrow> parseFloat s | JNum n \<Rightarrow> n)"

definition toLowerCase :: "string \<Rightarrow> string" where
  "toLowerCase s = map (\<lambda>c. let n = (of_char c :: nat) in
      if 65 \<le> n \<and> n \<le> 90 then char_of (n + 32) else c) s"

definition trim :: "string \<Rightarrow> string" where
  "trim s = rev (dropWhile is_ws (rev (dropWhile is_ws s)))"

section \<open>Sorting with a comparator\<close>

text \<open>
  \<open>Array.prototype.sort(cmp)\<close> is stable: an element moves in front of an earlier one
  only when the comparator puts it there (\<open>cmp earlier later > 0\<close>).  A comparator result
  of NaN counts as 0.  The model is the stable insertion sort.  For a comparator that orders
  the elements consistently every stable sort gives this result; for one that does not (it
  answers NaN for some pairs) ECMAScript leaves the order to the implementation, and the
  insertion sort leaves an element where the comparator does not move it.
\<close>

fun js_insert :: "('a \<Rightarrow> 'a \<Rightarrow> jsnum) \<Rightarrow> 'a \<Rightarrow> 'a list \<Rightarrow> 'a list" where
  "js_insert cmp x [] = [x]"
| "js_insert cmp x (y # ys) = (if jlt (Fin 0) (cmp x y) then y # js_insert cmp x ys else x # y # ys)"

definition js_sort :: "('a \<Rightarrow> 'a \<Rightarrow> jsnum) \<Rightarrow> 'a list \<Rightarrow> 'a list" where
  "js_sort cmp xs = foldr (js_insert cmp) xs []"

section \<open>The data store (\<open>src/stores/dataStore.ts\<close>)\<close>

subsection \<open>Rows\<close>

text \<open>
  The fields a function of the store reads.  \<open>sourceBalance\<close> is the nested object
  \<open>{network: {dexs: {exchange: positions}}}\<close>; an object is the list of its entries in
  the order \<open>Object.entries\<close> gives them.  \<open>None\<close> stands for an absent (falsy)
  \<open>sourceBalance\<close> or \<open>dexs\<close>, and for an exchange value that is not an array.
\<close>

record PoolPosition =
  equivalentREG :: jsval
  poolAddress :: "string option"
  tickLower :: "jsnum option"
  tickUpper :: "jsnum option"
  isActive :: "bool option"

type_synonym dexs_object = "(string \<times> PoolPosition list option) list"

type_synonym networks_object = "(string \<times> dexs_object option) list"

record BalanceData =
  walletAddress :: string
  totalBalanceREG :: jsval
  totalBalance :: jsval
  sourceBalance :: "networks_object option"

record PowerVotingData =
  address :: string
  powerVoting :: jsval

text \<open>\<open>parseFloat(String(b.totalBalanceREG || b.totalBalance || 0))\<close>\<close>

definition resolvedBalance :: "BalanceData \<Rightarrow> jsnum" where
  "resolvedBalance b =
     parseFloat_String (js_or (js_or (totalBalanceREG b) (totalBalance b)) (JNum (Fin 0)))"

text \<open>\<open>parseFloat(String(p.powerVoting || 0))\<close>\<close>

definition resolvedPower :: "PowerVotingData \<Rightarrow> jsnum" where
  "resolvedPower p = parseFloat_String (js_or (powerVoting p) (JNum (Fin 0)))"

subsection \<open>\<open>balanceStats\<close>\<close>

record Stats =
  stat_count :: nat
  total :: jsnum
  mean :: jsnum
  median :: jsnum
  stat_min :: jsnum
  stat_max :: jsnum
  stdDev :: jsnum

definition balanceValues :: "BalanceData list \<Rightarrow> jsnum list" where
  "balanceValues balances = filter (\<lambda>v. \<not> isNaN v) (map resolvedBalance balances)"

text \<open>\<open>sorted[i] ?? 0\<close>\<close>

definition at_or0 :: "jsnum list \<Rightarrow> nat \<Rightarrow> jsnum" where
  "at_or0 xs i = (if i < length xs then xs ! i else Fin 0)"

definition sum_values :: "jsnum list \<Rightarrow> jsnum" where
  "sum_values values = foldl (\<lambda>sum val. jadd sum val) (Fin 0) values"

definition variance :: "jsnum list \<Rightarrow> jsnum" where
  "variance values =
     (let mean = jdiv (sum_values values) (Fin (real (length values)))
      in jdiv (foldl (\<lambda>sum val. jadd sum (Math_pow2 (jsub val mean))) (Fin 0) values)
           (Fin (real (length values))))"

definition statsOf :: "jsnum list \<Rightarrow> Stats" where
  "statsOf values =
     (let sorted = js_sort (\<lambda>a b. jsub a b) values;
          n = length sorted;
          total = sum_values values
      in \<lparr> stat_count = length values,
           total = total,
           mean = jdiv total (Fin (real (length values))),
           median =
             (if n mod 2 = 0
              then jdiv (jadd (at_or0 sorted (n div 2 - 1)) (at_or0 sorted (n div 2))) (Fin 2)
              else at_or0 sorted (n div 2)),
           stat_min = foldl Math_min PInf values,
           stat_max = foldl Math_max NInf values,
           stdDev = Math_sqrt (variance values) \<rparr>)"

definition balanceStats :: "BalanceData list \<Rightarrow> Stats option" where
  "balanceStats balances =
     (if balances = [] then None
      else if balanceValues balances = [] then None
      else Some (statsOf (balanceValues balances)))"

subsection \<open>\<open>balanceDistribution\<close>\<close>

record Bin =
  label :: string
  bin_min :: jsnum
  bin_max :: jsnum
  bin_count :: nat

definition initialBins :: "Bin list" where
  "initialBins =
     [ \<lparr> label = ''0-100'', bin_min = Fin 0, bin_max = Fin 100, bin_count = 0 \<rparr>,
       \<lparr> label = ''100-500'', bin_min = Fin 100, bin_max = Fin 500, bin_count = 0 \<rparr>,
       \<lparr> label = ''500-1000'', bin_min = Fin 500, bin_max = Fin 1000, bin_count = 0 \<rparr>,
       \<lparr> label = ''1000-5000'', bin_min = Fin 1000, bin_max = Fin 5000, bin_count = 0 \<rparr>,
       \<lparr> label = ''5000-10000'', bin_min = Fin 5000, bin_max = Fin 10000, bin_count = 0 \<rparr>,
       \<lparr> label = ''10000+'', bin_min = Fin 10000, bin_max = PInf, bin_count = 0 \<rparr> ]"

definition in_bin :: "jsnum \<Rightarrow> Bin \<Rightarrow> bool" where
  "in_bin v b = (jle (bin_min b) v \<and> jlt v (bin_max b))"

text \<open>\<open>bins.find(...)\<close> and \<open>bin.count++\<close> on the bin found, if any.\<close>

fun countValue :: "jsnum \<Rightarrow> Bin list \<Rightarrow> Bin list" where
  "countValue v [] = []"
| "countValue v (b # bs) =
     (if in_bin v b then b \<lparr> bin_count := bin_count b + 1 \<rparr> # bs else b # countValue v bs)"

definition distributionValues :: "BalanceData list \<Rightarrow> jsnum list" where
  "distributionValues balances =
     filter (\<lambda>v. \<not> isNaN v \<and> jlt (Fin 0) v) (map resolvedBalance balances)"

definition balanceDistribution :: "BalanceData list \<Rightarrow> Bin list option" where
  "balanceDistribution balances =
     (if balances = [] then None
      else if distributionValues balances = [] then None
      else Some (foldl (\<lambda>bins v. countValue v bins) initialBins (distributionValues balances)))"

subsection \<open>\<open>topBalanceHolders\<close>\<close>

record Holder =
  holder_address :: string
  balance :: jsnum

definition topBalanceHolders :: "BalanceData list \<Rightarrow> Holder list" where
  "topBalanceHolders balances =
     take 10
       (js_sort (\<lambda>a b. jsub (balance b) (balance a))
         (filter (\<lambda>item. \<not> isNaN (balance item))
           (map (\<lambda>b. \<lparr> holder_address = walletAddress b, balance = resolvedBalance b \<rparr>) balances)))"

subsection \<open>Liquidity positions\<close>

text \<open>\<open>parseFloat(String(pos.equivalentREG || '0'))\<close>\<close>

definition regAmountOf :: "'a PoolPosition_scheme \<Rightarrow> jsnum" where
  "regAmountOf pos = parseFloat_String (js_or (equivalentREG pos) (JStr ''0''))"

text \<open>\<open>pos.tickLower !== undefined && pos.tickUpper !== undefined\<close>\<close>

definition isV3 :: "'a PoolPosition_scheme \<Rightarrow> bool" where
  "isV3 pos = (tickLower pos \<noteq> None \<and> tickUpper pos \<noteq> None)"

subsection \<open>\<open>poolAnalysis\<close>\<close>

record PoolStats =
  totalREG :: jsnum
  count :: nat
  dexs :: "(string \<times> jsnum) list"

record PoolAnalysisState =
  v2Stats :: PoolStats
  v3Stats :: PoolStats
  pools :: "string option list"

record PoolAnalysis =
  v2 :: PoolStats
  v3 :: PoolStats
  totalPools :: nat

text \<open>
  \<open>stats.totalREG += regAmount; stats.count++;
  stats.dexs[dexName] = (stats.dexs[dexName] || 0) + regAmount\<close>
\<close>

definition addToStats :: "string \<Rightarrow> jsnum \<Rightarrow> PoolStats \<Rightarrow> PoolStats" where
  "addToStats dexName regAmount stats =
     \<lparr> totalREG = jadd (totalREG stats) regAmount,
       count = count stats + 1,
       dexs = AList.update dexName
                (jadd (case map_of (dexs stats) dexName of None \<Rightarrow> Fin 0 | Some v \<Rightarrow> or0 v) regAmount)
                (dexs stats) \<rparr>"

text \<open>The body of \<open>positions.forEach\<close>; \<open>pools\<close> is a \<open>Set\<close>.\<close>

definition analysePosition :: "string \<Rightarrow> PoolAnalysisState \<Rightarrow> PoolPosition \<Rightarrow> PoolAnalysisState" where
  "analysePosition dexName st pos =
     (let regAmount = regAmountOf pos in
      if jle regAmount (Fin 0) then st
      else
        (if isV3 pos then st \<lparr> v3Stats := addToStats dexName regAmount (v3Stats st) \<rparr>
         else st \<lparr> v2Stats := addToStats dexName regAmount (v2Stats st) \<rparr>)
        \<lparr> pools := (if poolAddress pos \<in> set (pools st) then pools st
                     else pools st @ [poolAddress pos]) \<rparr>)"

definition analyseDex :: "PoolAnalysisState \<Rightarrow> string \<times> PoolPosition list option \<Rightarrow> PoolAnalysisState" where
  "analyseDex st entry = (case snd entry of
      None \<Rightarrow> st
    | Some positions \<Rightarrow> foldl (analysePosition (fst entry)) st positions)"

text \<open>\<open>wallet.sourceBalance?.gnosis?.dexs\<close>\<close>

definition gnosisDexs :: "BalanceData \<Rightarrow> dexs_object option" where
  "gnosisDexs wallet = (case sourceBalance wallet of
      None \<Rightarrow> None
    | Some networks \<Rightarrow> (case map_of networks ''gnosis'' of None \<Rightarrow> None | Some d \<Rightarrow> d))"

definition analyseWallet :: "PoolAnalysisState \<Rightarrow> BalanceData \<Rightarrow> PoolAnalysisState" where
  "analyseWallet st wallet = (case gnosisDexs wallet of
      None \<Rightarrow> st
    | Some ds \<Rightarrow> foldl analyseDex st ds)"

definition emptyStats :: PoolStats where
  "emptyStats = \<lparr> totalREG = Fin 0, count = 0, dexs = [] \<rparr>"

definition poolAnalysis :: "BalanceData list \<Rightarrow> PoolAnalysis option" where
  "poolAnalysis balances =
     (if balances = [] then None
      else
        let st = foldl analyseWallet \<lparr> v2Stats = emptyStats, v3Stats = emptyStats, pools = [] \<rparr> balances
        in Some \<lparr> v2 = v2Stats st, v3 = v3Stats st, totalPools = length (pools st) \<rparr>)"

subsection \<open>\<open>addressPoolProfiles\<close>\<close>

datatype pool_type = V2 | V3

record AddressPoolPosition = PoolPosition +
  dex :: string
  network :: string
  poolType :: pool_type
  regAmount :: jsnum

record AddressPoolProfile =
  profile_address :: string
  walletREG :: jsnum
  poolLiquidityREG :: jsnum
  poolCount :: nat
  dexCount :: nat
  positions :: "AddressPoolPosition list"

text \<open>The object pushed for a position that is kept: \<open>{...pos, dex, network, poolType, regAmount}\<close>.\<close>

definition annotate :: "string \<Rightarrow> string \<Rightarrow> PoolPosition \<Rightarrow> AddressPoolPosition" where
  "annotate networkName dexName pos =
     PoolPosition.extend pos
       (AddressPoolPosition.fields dexName networkName (if isV3 pos then V3 else V2) (regAmountOf pos))"

text \<open>
  The three nested \<open>forEach\<close> loops push the kept positions in the order network, exchange,
  position; a position is skipped when \<open>regAmount <= 0\<close>.
\<close>

definition dexPositions :: "string \<Rightarrow> string \<times> PoolPosition list option \<Rightarrow> AddressPoolPosition list" where
  "dexPositions networkName entry = (case snd entry of
      None \<Rightarrow> []
    | Some rawPositions \<Rightarrow>
        map (annotate networkName (fst entry))
          (filter (\<lambda>pos. \<not> jle (regAmountOf pos) (Fin 0)) rawPositions))"

definition networkPositions :: "string \<times> dexs_object option \<Rightarrow> AddressPoolPosition list" where
  "networkPositions entry = (case snd entry of
      None \<Rightarrow> []
    | Some ds \<Rightarrow> concat (map (dexPositions (fst entry)) ds))"

definition walletPositions :: "networks_object \<Rightarrow> AddressPoolPosition list" where
  "walletPositions networks = concat (map networkPositions networks)"

text \<open>\<open>new Set(positions.map((pos) => `${pos.network}-${pos.dex}`)).size\<close>\<close>

definition dexKey :: "string \<Rightarrow> string \<Rightarrow> string" where
  "dexKey networkName dexName = networkName @ ''-'' @ dexName"

definition addressPoolProfile :: "BalanceData \<Rightarrow> AddressPoolProfile option" where
  "addressPoolProfile wallet = (case sourceBalance wallet of
      None \<Rightarrow> None
    | Some networks \<Rightarrow>
        (let ps = walletPositions networks in
         if ps = [] then None
         else Some
           \<lparr> profile_address = walletAddress wallet,
             walletREG = or0 (resolvedBalance wallet),
             poolLiquidityREG = foldl (\<lambda>sum pos. jadd sum (regAmount pos)) (Fin 0) ps,
             poolCount = length ps,
             dexCount = length (remdups (map (\<lambda>pos. dexKey (network pos) (dex pos)) ps)),
             positions = ps \<rparr>))"

definition addressPoolProfiles :: "BalanceData list \<Rightarrow> AddressPoolProfile list" where
  "addressPoolProfiles balances = List.map_filter addressPoolProfile balances"

subsection \<open>\<open>poolPowerCorrelation\<close>\<close>

record PoolPowerCorrelation = AddressPoolProfile +
  corr_powerVoting :: jsnum
  walletDirectREG :: jsnum
  walletVotingShare :: jsnum
  poolVotingShare :: jsnum
  boostMultiplier :: jsnum

text \<open>
  \<open>new Map(powerVoting.map(...))\<close>: the entries in order; of two entries with one key the
  later one is the value of the key.
\<close>

definition powerMap :: "PowerVotingData list \<Rightarrow> (string \<times> jsnum) list" where
  "powerMap pv = map (\<lambda>entry. (toLowerCase (address entry), resolvedPower entry)) pv"

definition powerMap_get :: "(string \<times> jsnum) list \<Rightarrow> string \<Rightarrow> jsnum option" where
  "powerMap_get m k = map_of (rev m) k"

text \<open>\<open>powerMap.get(address.toLowerCase()) || 0\<close>\<close>

definition powerValueOf :: "(string \<times> jsnum) list \<Rightarrow> string \<Rightarrow> jsnum" where
  "powerValueOf pm a = (case powerMap_get pm (toLowerCase a) of None \<Rightarrow> Fin 0 | Some v \<Rightarrow> or0 v)"

text \<open>The callback of \<open>addressPoolProfiles.map\<close>; the field \<open>powerVoting\<close> of the result is \<open>corr_powerVoting\<close> here.\<close>

definition correlate :: "(string \<times> jsnum) list \<Rightarrow> AddressPoolProfile \<Rightarrow> PoolPowerCorrelation" where
  "correlate pm profile =
     (let powerValue = powerValueOf pm (profile_address profile);
          walletDirectREG = Math_max (jsub (walletREG profile) (poolLiquidityREG profile)) (Fin 0);
          walletVotingShare = Math_min powerValue walletDirectREG;
          poolVotingShare = Math_max (jsub powerValue walletDirectREG) (Fin 0);
          boostMultiplier =
            (if jlt (Fin 0) (poolLiquidityREG profile)
             then jdiv poolVotingShare (poolLiquidityREG profile) else Fin 0)
      in AddressPoolProfile.extend profile
           (PoolPowerCorrelation.fields powerValue walletDirectREG walletVotingShare
              poolVotingShare boostMultiplier))"

definition poolPowerCorrelation :: "BalanceData list \<Rightarrow> PowerVotingData list \<Rightarrow> PoolPowerCorrelation list" where
  "poolPowerCorrelation balances pv =
     (if addressPoolProfiles balances = [] \<or> pv = [] then []
      else
        js_sort (\<lambda>a b. jsub (poolLiquidityREG b) (poolLiquidityREG a))
          (filter (\<lambda>item. jlt (Fin 0) (corr_powerVoting item))
            (map (correlate (powerMap pv)) (addressPoolProfiles balances))))"

section \<open>The analysis view: one address across the snapshots\<close>

subsection \<open>\<open>analyzePoolPositions\<close>\<close>

record PoolSummary =
  summary_totalPools :: nat
  regInPools :: jsnum
  poolsInRange :: nat
  poolsOutOfRange :: nat
  regInRange :: jsnum
  regOutOfRange :: jsnum
  poolRegPercentage :: jsnum
  v2Pools :: nat
  v3Pools :: nat
  summary_dexCount :: nat

text \<open>The local variables of \<open>analyzePoolPositions\<close>; \<open>dexSet\<close> is a \<open>Set\<close> of strings.\<close>

record SummaryState =
  npositions :: nat
  totalRegInPools :: jsnum
  s_poolsInRange :: nat
  s_poolsOutOfRange :: nat
  s_regInRange :: jsnum
  s_regOutOfRange :: jsnum
  s_v2Pools :: nat
  s_v3Pools :: nat
  dexSet :: "string list"

definition summarisePosition :: "SummaryState \<Rightarrow> PoolPosition \<Rightarrow> SummaryState" where
  "summarisePosition st pos =
     (let regAmount = regAmountOf pos in
      if jle regAmount (Fin 0) then st
      else
        let active = (case isActive pos of Some a \<Rightarrow> a | None \<Rightarrow> (if isV3 pos then False else True));
            st1 = st \<lparr> totalRegInPools := jadd (totalRegInPools st) regAmount \<rparr>;
            st2 =
              (if isV3 pos then
                 (if active
                  then st1 \<lparr> s_v3Pools := s_v3Pools st1 + 1,
                             s_poolsInRange := s_poolsInRange st1 + 1,
                             s_regInRange := jadd (s_regInRange st1) regAmount \<rparr>
                  else st1 \<lparr> s_v3Pools := s_v3Pools st1 + 1,
                             s_poolsOutOfRange := s_poolsOutOfRange st1 + 1,
                             s_regOutOfRange := jadd (s_regOutOfRange st1) regAmount \<rparr>)
               else st1 \<lparr> s_v2Pools := s_v2Pools st1 + 1,
                          s_poolsInRange := s_poolsInRange st1 + 1,
                          s_regInRange := jadd (s_regInRange st1) regAmount \<rparr>)
        in st2 \<lparr> npositions := npositions st2 + 1 \<rparr>)"

text \<open>
  The body of \<open>Object.entries(dexs).forEach\<close>: the key of the exchange is added to
  \<open>dexSet\<close> as soon as its value is an array, before its positions are looked at.
\<close>

definition summariseDex :: "string \<Rightarrow> SummaryState \<Rightarrow> string \<times> PoolPosition list option \<Rightarrow> SummaryState" where
  "summariseDex networkName st entry = (case snd entry of
      None \<Rightarrow> st
    | Some rawPositions \<Rightarrow>
        foldl summarisePosition
          (st \<lparr> dexSet := (if dexKey networkName (fst entry) \<in> set (dexSet st) then dexSet st
                            else dexSet st @ [dexKey networkName (fst entry)]) \<rparr>)
          rawPositions)"

definition summariseNetwork :: "SummaryState \<Rightarrow> string \<times> dexs_object option \<Rightarrow> SummaryState" where
  "summariseNetwork st entry = (case snd entry of
      None \<Rightarrow> st
    | Some ds \<Rightarrow> foldl (summariseDex (fst entry)) st ds)"

definition analyzePoolPositions :: "BalanceData \<Rightarrow> PoolSummary option" where
  "analyzePoolPositions walletData = (case sourceBalance walletData of
      None \<Rightarrow> None
    | Some networks \<Rightarrow>
        (let st = foldl summariseNetwork
                    \<lparr> npositions = 0, totalRegInPools = Fin 0, s_poolsInRange = 0,
                      s_poolsOutOfRange = 0, s_regInRange = Fin 0, s_regOutOfRange = Fin 0,
                      s_v2Pools = 0, s_v3Pools = 0, dexSet = [] \<rparr> networks;
             totalReg = resolvedBalance walletData
         in Some
           \<lparr> summary_totalPools = npositions st,
             regInPools = totalRegInPools st,
             poolsInRange = s_poolsInRange st,
             poolsOutOfRange = s_poolsOutOfRange st,
             regInRange = s_regInRange st,
             regOutOfRange = s_regOutOfRange st,
             poolRegPercentage =
               (if jlt (Fin 0) totalReg then jmul (jdiv (totalRegInPools st) totalReg) (Fin 100)
                else Fin 0),
             v2Pools = s_v2Pools st,
             v3Pools = s_v3Pools st,
             summary_dexCount = length (dexSet st) \<rparr>))"

subsection \<open>\<open>searchAddressAcrossSnapshots\<close>\<close>

record SnapshotInfo =
  date :: string
  dateFormatted :: string
  balancesFile :: string
  powerVotingFile :: string

text \<open>
  A loaded JSON document: the rows under \<open>result\<close>, a bare array of rows, an object that
  holds no array, or \<open>null\<close> (reading \<open>.result\<close> of \<open>null\<close> throws).
\<close>

datatype 'a document = Wrapped "'a list" | Bare "'a list" | NoArray | JNull

text \<open>\<open>loadSnapshot\<close> fetches two files: it returns them or throws.\<close>

datatype load_error = LoadFailed

type_synonym loader = "SnapshotInfo \<Rightarrow> load_error + (BalanceData document \<times> PowerVotingData document)"

record SearchResult =
  result_date :: string
  result_dateFormatted :: string
  isCurrent :: bool
  reg :: jsnum
  result_power :: jsnum
  found :: bool
  result_poolAnalysis :: "PoolSummary option"

definition findBalance :: "string \<Rightarrow> BalanceData list \<Rightarrow> BalanceData option" where
  "findBalance addressToSearch rows = find (\<lambda>b. toLowerCase (walletAddress b) = addressToSearch) rows"

definition findPower :: "string \<Rightarrow> PowerVotingData list \<Rightarrow> PowerVotingData option" where
  "findPower addressToSearch rows = find (\<lambda>p. toLowerCase (address p) = addressToSearch) rows"

text \<open>The entry pushed for the rows found (or not) in one snapshot.\<close>

definition entryOf :: "string \<Rightarrow> string \<Rightarrow> bool \<Rightarrow> BalanceData option \<Rightarrow> PowerVotingData option \<Rightarrow> SearchResult" where
  "entryOf d df cur balanceData powerData =
     \<lparr> result_date = d,
       result_dateFormatted = df,
       isCurrent = cur,
       reg = (case balanceData of None \<Rightarrow> Fin 0 | Some b \<Rightarrow> resolvedBalance b),
       result_power = (case powerData of None \<Rightarrow> Fin 0 | Some p \<Rightarrow> resolvedPower p),
       found = (balanceData \<noteq> None \<or> powerData \<noteq> None),
       result_poolAnalysis = (case balanceData of None \<Rightarrow> None | Some b \<Rightarrow> analyzePoolPositions b) \<rparr>"

text \<open>The entry pushed by the \<open>catch\<close> of the loop.\<close>

definition notFoundEntry :: "string \<Rightarrow> string \<Rightarrow> SearchResult" where
  "notFoundEntry d df =
     \<lparr> result_date = d, result_dateFormatted = df, isCurrent = False, reg = Fin 0,
       result_power = Fin 0, found = False, result_poolAnalysis = None \<rparr>"

text \<open>\<open>doc.result?.rows || doc\<close>, then \<open>Array.isArray(...) ? rows.find(...) : null\<close>.\<close>

definition rowsOf :: "'a document \<Rightarrow> 'a list" where
  "rowsOf doc = (case doc of Wrapped rows \<Rightarrow> rows | Bare rows \<Rightarrow> rows | _ \<Rightarrow> [])"

text \<open>
  The body of the loop over \<open>availableSnapshots\<close>, its \<open>try\<close> and its \<open>catch\<close>;
  \<open>fmt\<close> is \<open>formatSnapshotDate\<close>, a locale-dependent date text.
\<close>

definition snapshotEntry :: "(string \<Rightarrow> string) \<Rightarrow> loader \<Rightarrow> string \<Rightarrow> SnapshotInfo \<Rightarrow> SearchResult" where
  "snapshotEntry fmt load addressToSearch snapshot = (case load snapshot of
      Inl err \<Rightarrow> notFoundEntry (date snapshot) (fmt (date snapshot))
    | Inr (balances, pv) \<Rightarrow>
        (if balances = JNull \<or> pv = JNull then notFoundEntry (date snapshot) (fmt (date snapshot))
         else entryOf (date snapshot) (fmt (date snapshot)) False
                (findBalance addressToSearch (rowsOf balances))
                (findPower addressToSearch (rowsOf pv))))"

text \<open>\<open>s.split('-').reverse().join('-')\<close>\<close>

fun split_dash :: "string \<Rightarrow> string list" where
  "split_dash [] = [[]]"
| "split_dash (c # cs) =
     (if c = CHR ''-'' then [] # split_dash cs
      else (case split_dash cs of [] \<Rightarrow> [[c]] | w # ws \<Rightarrow> (c # w) # ws))"

fun join_dash :: "string list \<Rightarrow> string" where
  "join_dash [] = []"
| "join_dash [w] = w"
| "join_dash (w # ws) = w @ ''-'' @ join_dash ws"

definition isoDate :: "string \<Rightarrow> string" where
  "isoDate d = join_dash (rev (split_dash d))"

text \<open>\<open>a.localeCompare(b)\<close>, taken as the comparison of the strings character by character.\<close>

fun localeCompare :: "string \<Rightarrow> string \<Rightarrow> jsnum" where
  "localeCompare [] [] = Fin 0"
| "localeCompare [] (y # ys) = Fin (- 1)"
| "localeCompare (x # xs) [] = Fin 1"
| "localeCompare (x # xs) (y # ys) =
     (if (of_char x :: nat) < of_char y then Fin (- 1)
      else if (of_char y :: nat) < of_char x then Fin 1
      else localeCompare xs ys)"

definition compareResults :: "SearchResult \<Rightarrow> SearchResult \<Rightarrow> jsnum" where
  "compareResults a b =
     (if isCurrent a then Fin (- 1)
      else if isCurrent b then Fin 1
      else localeCompare (isoDate (result_date b)) (isoDate (result_date a)))"

text \<open>
  The entry of the current (uploaded) data; its display text is written without its accent.
\<close>

definition currentEntry :: "BalanceData list \<Rightarrow> PowerVotingData list \<Rightarrow> string \<Rightarrow> SearchResult" where
  "currentEntry balances pv addressToSearch =
     entryOf ''Actuel'' ''Snapshot actuel (upload)'' True
       (findBalance addressToSearch balances) (findPower addressToSearch pv)"

text \<open>
  The results the search leaves in \<open>addressSearchResults\<close>: none for a blank address,
  else the entry of the current data, then one entry for each snapshot in turn, sorted.
\<close>

definition searchAddressAcrossSnapshots ::
  "(string \<Rightarrow> string) \<Rightarrow> loader \<Rightarrow> BalanceData list \<Rightarrow> PowerVotingData list \<Rightarrow>
     SnapshotInfo list \<Rightarrow> string \<Rightarrow> SearchResult list" where
  "searchAddressAcrossSnapshots fmt load balances pv availableSnapshots searchAddress =
     (if trim searchAddress = [] then []
      else
        let addressToSearch = toLowerCase (trim searchAddress)
        in js_sort compareResults
             (currentEntry balances pv addressToSearch
                # map (snapshotEntry fmt load addressToSearch) availableSnapshots))"

section \<open>The statements of the specification\<close>

text \<open>
  Stated from the specification's words (\<open>walletVotingShare + poolVotingShare == power\<close>):
  the two shares are finite and add up, as real numbers, to the power.
\<close>

definition shares_cover_power :: "PoolPowerCorrelation \<Rightarrow> bool" where
  "shares_cover_power c = (case (walletVotingShare c, poolVotingShare c, corr_powerVoting c) of
      (Fin w, Fin q, Fin p) \<Rightarrow> w + q = p
    | _ \<Rightarrow> False)"

text \<open>The same sum as JavaScript computes it: \<open>walletVotingShare + poolVotingShare\<close>.\<close>

definition shares_sum :: "PoolPowerCorrelation \<Rightarrow> jsnum" where
  "shares_sum c = jadd (walletVotingShare c) (poolVotingShare c)"

text \<open>
  Stated from the specification's words: a wallet has a surviving pool position when some
  exchange of some network lists a position that the filter \<open>regAmount <= 0\<close> keeps.
\<close>

definition survives :: "PoolPosition \<Rightarrow> bool" where
  "survives pos = (\<not> jle (regAmountOf pos) (Fin 0))"

definition has_surviving_position :: "BalanceData \<Rightarrow> bool" where
  "has_surviving_position w = (case sourceBalance w of
      None \<Rightarrow> False
    | Some networks \<Rightarrow>
        list_ex (\<lambda>n. case snd n of
            None \<Rightarrow> False
          | Some ds \<Rightarrow> list_ex (\<lambda>d. case snd d of
                None \<Rightarrow> False
              | Some raw \<Rightarrow> list_ex survives raw) ds) networks)"

text \<open>Descending order of \<open>poolLiquidityREG\<close>: no element is followed by a larger one.\<close>

definition descending_liquidity :: "PoolPowerCorrelation list \<Rightarrow> bool" where
  "descending_liquidity cs = sorted_wrt (\<lambda>a b. jle (poolLiquidityREG b) (poolLiquidityREG a)) cs"

text \<open>The input without the positions that the filter \<open>regAmount <= 0\<close> skips.\<close>

definition dropDexs :: "dexs_object \<Rightarrow> dexs_object" where
  "dropDexs ds = map (\<lambda>d. (fst d, map_option (filter survives) (snd d))) ds"

definition dropNetworks :: "networks_object \<Rightarrow> networks_object" where
  "dropNetworks networks = map (\<lambda>n. (fst n, map_option dropDexs (snd n))) networks"

definition dropNonPositive :: "BalanceData \<Rightarrow> BalanceData" where
  "dropNonPositive w = w \<lparr> sourceBalance := map_option dropNetworks (sourceBalance w) \<rparr>"

text \<open>The input without the networks other than \<open>gnosis\<close>.\<close>

definition onlyGnosis :: "BalanceData \<Rightarrow> BalanceData" where
  "onlyGnosis w =
     w \<lparr> sourceBalance := map_option (filter (\<lambda>n. fst n = ''gnosis'')) (sourceBalance w) \<rparr>"

text \<open>
  Stated from the specification's words: the distinct (network, exchange) pairs of a wallet
  that have at least one surviving position, and their number.
\<close>

definition surviving_pairs :: "networks_object \<Rightarrow> (string \<times> string) list" where
  "surviving_pairs networks =
     remdups (concat (map (\<lambda>n. case snd n of
         None \<Rightarrow> []
       | Some ds \<Rightarrow> concat (map (\<lambda>d. case snd d of
             None \<Rightarrow> []
           | Some raw \<Rightarrow> (if list_ex survives raw then [(fst n, fst d)] else [])) ds)) networks))"

definition distinctExchangeCount :: "BalanceData \<Rightarrow> nat" where
  "distinctExchangeCount w = (case sourceBalance w of
      None \<Rightarrow> 0
    | Some networks \<Rightarrow> length (surviving_pairs networks))"

text \<open>The bins of the store that a value falls into.\<close>

definition bins_holding :: "jsnum \<Rightarrow> Bin list" where
  "bins_holding v = filter (in_bin v) initialBins"

text \<open>
  Stated from the specification's words: the six half-open ranges \<open>[0,100)\<close>, \<open>[100,500)\<close>,
  \<open>[500,1000)\<close>, \<open>[1000,5000)\<close>, \<open>[5000,10000)\<close>, \<open>[10000,\<infinity>)\<close>, the ranges a value falls
  into, and a value that is a finite number above 0.
\<close>

definition distributionRanges :: "(jsnum \<times> jsnum) list" where
  "distributionRanges =
     [(Fin 0, Fin 100), (Fin 100, Fin 500), (Fin 500, Fin 1000), (Fin 1000, Fin 5000),
      (Fin 5000, Fin 10000), (Fin 10000, PInf)]"

definition in_range :: "jsnum \<Rightarrow> jsnum \<times> jsnum \<Rightarrow> bool" where
  "in_range v r = (jle (fst r) v \<and> jlt v (snd r))"

definition ranges_holding :: "jsnum \<Rightarrow> (jsnum \<times> jsnum) list" where
  "ranges_holding v = filter (in_range v) distributionRanges"

definition finite_positive :: "jsnum \<Rightarrow> bool" where
  "finite_positive v = (case v of Fin x \<Rightarrow> 0 < x | _ \<Rightarrow> False)"

text \<open>
  Stated from the specification's words: the population variance of a sample of real numbers,
  the sum of the squared deviations from the mean divided by the count.
\<close>

definition population_variance :: "real list \<Rightarrow> real" where
  "population_variance xs =
     (let n = real (length xs); m = sum_list xs / n
      in (\<Sum>x\<leftarrow>xs. (x - m) ^ 2) / n)"

text \<open>
  The total and the pool liquidity of a wallet, read from its row: the resolved amount with
  0 in place of NaN (\<open>parseFloat(String(...)) || 0\<close>), and the sum, from 0 and in the order of
  the row, of the amounts of its positions that the filter \<open>regAmount <= 0\<close> keeps.
\<close>

definition walletTotal :: "BalanceData \<Rightarrow> jsnum" where
  "walletTotal w = or0 (resolvedBalance w)"

definition keptAmounts :: "BalanceData \<Rightarrow> jsnum list" where
  "keptAmounts w = (case sourceBalance w of
      None \<Rightarrow> []
    | Some networks \<Rightarrow>
        concat (map (\<lambda>n. case snd n of
            None \<Rightarrow> []
          | Some ds \<Rightarrow>
              concat (map (\<lambda>d. case snd d of
                  None \<Rightarrow> []
                | Some raw \<Rightarrow> filter (\<lambda>a. \<not> jle a (Fin 0)) (map regAmountOf raw)) ds))
          networks))"

definition walletLiquidity :: "BalanceData \<Rightarrow> jsnum" where
  "walletLiquidity w = foldl jadd (Fin 0) (keptAmounts w)"

text \<open>
  Stated from the specification's words: the direct share of a wallet is
  \<open>max(totalREG - poolLiquidityREG, 0)\<close>, as a real number, and it is not negative (\<open>>= 0\<close>).
\<close>

definition direct_share_exact :: "PoolPowerCorrelation \<Rightarrow> bool" where
  "direct_share_exact c = (case (walletREG c, poolLiquidityREG c, walletDirectREG c) of
      (Fin t, Fin l, Fin d) \<Rightarrow> d = max (t - l) 0
    | _ \<Rightarrow> False)"

definition direct_share_nonnegative :: "PoolPowerCorrelation \<Rightarrow> bool" where
  "direct_share_nonnegative c = jle (Fin 0) (walletDirectREG c)"

section \<open>Example inputs\<close>

definition v2_position :: "string \<Rightarrow> string \<Rightarrow> PoolPosition" where
  "v2_position amount pool =
     \<lparr> equivalentREG = JStr amount, poolAddress = Some pool, tickLower = None,
       tickUpper = None, isActive = None \<rparr>"

definition wallet_with :: "string \<Rightarrow> jsval \<Rightarrow> networks_object option \<Rightarrow> BalanceData" where
  "wallet_with a amount networks =
     \<lparr> walletAddress = a, totalBalanceREG = amount, totalBalance = Undefined,
       sourceBalance = networks \<rparr>"

text \<open>A wallet of 2 REG, 1 of them in a pool, with a voting power of \<open>2 ^ 53 + 2\<close>.\<close>

definition c1_wallet :: BalanceData where
  "c1_wallet = wallet_with ''0xA'' (JNum (Fin 2))
     (Some [(''gnosis'', Some [(''sushiswap'', Some [v2_position ''1'' ''0xP''])])])"

definition c1_power :: "PowerVotingData list" where
  "c1_power = [\<lparr> address = ''0xa'', powerVoting = JNum (Fin 9007199254740994) \<rparr>]"

text \<open>Amounts with one decimal: 1 REG in total, 0.4 of it in a pool, and a power of 1.7.\<close>

definition c1_decimal_wallet :: BalanceData where
  "c1_decimal_wallet = wallet_with ''0xD'' (JStr ''1'')
     (Some [(''gnosis'', Some [(''sushiswap'', Some [v2_position ''0.4'' ''0xP''])])])"

definition c1_decimal_power :: "PowerVotingData list" where
  "c1_decimal_power = [\<lparr> address = ''0xd'', powerVoting = JStr ''1.7'' \<rparr>]"

text \<open>Scenario B of the specification: 500 REG, all of it in one pool, and a power of 2000.\<close>

definition scenario_b_wallet :: BalanceData where
  "scenario_b_wallet = wallet_with ''0xB'' (JStr ''500'')
     (Some [(''gnosis'', Some [(''X'', Some [v2_position ''500'' ''0xP''])])])"

definition scenario_b_power :: "PowerVotingData list" where
  "scenario_b_power = [\<lparr> address = ''0xb'', powerVoting = JStr ''2000'' \<rparr>]"

text \<open>
  Three wallets with a power: 150 REG with 100 in a pool, 100 REG with 300 in a pool, and
  80 REG with no pool position.
\<close>

definition c2_balances :: "BalanceData list" where
  "c2_balances =
     [ wallet_with ''0xA'' (JStr ''150'')
         (Some [(''gnosis'', Some [(''sushiswap'', Some [v2_position ''100'' ''0xP''])])]),
       wallet_with ''0xC'' (JStr ''100'')
         (Some [(''gnosis'', Some [(''honeyswap'', Some [v2_position ''300'' ''0xQ''])])]),
       wallet_with ''0xE'' (JStr ''80'') None ]"

definition c2_power :: "PowerVotingData list" where
  "c2_power =
     [ \<lparr> address = ''0xa'', powerVoting = JStr ''5'' \<rparr>,
       \<lparr> address = ''0xc'', powerVoting = JStr ''50'' \<rparr>,
       \<lparr> address = ''0xe'', powerVoting = JStr ''9'' \<rparr> ]"

text \<open>A wallet of 10 REG whose only pool position has an amount that is not a number.\<close>

definition c2_nan_balances :: "BalanceData list" where
  "c2_nan_balances =
     [ wallet_with ''0xB'' (JStr ''10'')
         (Some [(''gnosis'', Some [(''sushiswap'', Some [v2_position ''abc'' ''0xP''])])]) ]"

definition c2_nan_power :: "PowerVotingData list" where
  "c2_nan_power = [\<lparr> address = ''0xb'', powerVoting = JStr ''5'' \<rparr>]"

text \<open>A wallet of 1.7 REG with 0.6 REG in a pool.\<close>

definition c2_decimal_balances :: "BalanceData list" where
  "c2_decimal_balances =
     [ wallet_with ''0xD'' (JStr ''1.7'')
         (Some [(''gnosis'', Some [(''sushiswap'', Some [v2_position ''0.6'' ''0xP''])])]) ]"

definition c2_decimal_power :: "PowerVotingData list" where
  "c2_decimal_power = [\<lparr> address = ''0xd'', powerVoting = JStr ''1'' \<rparr>]"

text \<open>
  Four wallets: two with a pool position and a power, one with a position and no power,
  one with a power and no position that is kept.
\<close>

definition c3_balances :: "BalanceData list" where
  "c3_balances =
     [ wallet_with ''0xA'' (JStr ''150'')
         (Some [(''gnosis'', Some [(''sushiswap'', Some [v2_position ''100'' ''0xP''])])]),
       wallet_with ''0xB'' (JStr ''300'')
         (Some [(''gnosis'', Some [(''honeyswap'', Some [v2_position ''300'' ''0xQ''])])]),
       wallet_with ''0xC'' (JStr ''200'')
         (Some [(''gnosis'', Some [(''honeyswap'', Some [v2_position ''200'' ''0xQ''])])]),
       wallet_with ''0xD'' (JStr ''50'')
         (Some [(''gnosis'', Some [(''honeyswap'', Some [v2_position ''0'' ''0xQ''])])]) ]"

definition c3_power :: "PowerVotingData list" where
  "c3_power =
     [ \<lparr> address = ''0xa'', powerVoting = JStr ''5'' \<rparr>,
       \<lparr> address = ''0xb'', powerVoting = JStr ''7'' \<rparr>,
       \<lparr> address = ''0xd'', powerVoting = JStr ''9'' \<rparr> ]"

text \<open>Three wallets with a power; the amount of the second wallet's position is not a number.\<close>

definition c3_nan_balances :: "BalanceData list" where
  "c3_nan_balances =
     [ wallet_with ''0xA'' (JStr ''10'')
         (Some [(''gnosis'', Some [(''sushiswap'', Some [v2_position ''1'' ''0xP''])])]),
       wallet_with ''0xB'' (JStr ''10'')
         (Some [(''gnosis'', Some [(''sushiswap'', Some [v2_position ''abc'' ''0xP''])])]),
       wallet_with ''0xC'' (JStr ''10'')
         (Some [(''gnosis'', Some [(''sushiswap'', Some [v2_position ''2'' ''0xP''])])]) ]"

definition c3_nan_power :: "PowerVotingData list" where
  "c3_nan_power =
     [ \<lparr> address = ''0xa'', powerVoting = JStr ''5'' \<rparr>,
       \<lparr> address = ''0xb'', powerVoting = JStr ''5'' \<rparr>,
       \<lparr> address = ''0xc'', powerVoting = JStr ''5'' \<rparr> ]"

text \<open>A wallet with 40 REG in a pool on another network and 10 REG in a pool on gnosis.\<close>

definition c10_wallet :: BalanceData where
  "c10_wallet = wallet_with ''0xE'' (JStr ''60'')
     (Some [(''ethereum'', Some [(''uniswap'', Some [v2_position ''40'' ''0xU''])]),
            (''gnosis'', Some [(''honeyswap'', Some [v2_position ''10'' ''0xQ''])])])"

text \<open>A wallet with a position of 0 REG and one of 5 REG, on two exchanges and two pools.\<close>

definition c4_wallet :: BalanceData where
  "c4_wallet = wallet_with ''0xF'' (JStr ''5'')
     (Some [(''gnosis'', Some [(''sushiswap'', Some [v2_position ''0'' ''0xZ'']),
                              (''honeyswap'', Some [v2_position ''5'' ''0xQ''])])])"

text \<open>
  Two rows: the first has a text that is no number as its REG total and 7 as its generic
  total, the second has 10 as its REG total.
\<close>

definition c5_balances :: "BalanceData list" where
  "c5_balances =
     [ \<lparr> walletAddress = ''0x1'', totalBalanceREG = JStr ''abc'', totalBalance = JStr ''7'',
         sourceBalance = None \<rparr>,
       \<lparr> walletAddress = ''0x2'', totalBalanceREG = JStr ''10'', totalBalance = Undefined,
         sourceBalance = None \<rparr> ]"

text \<open>Three rows: a REG total, only a generic total, and neither.\<close>

definition c5_good_balances :: "BalanceData list" where
  "c5_good_balances =
     [ \<lparr> walletAddress = ''0x1'', totalBalanceREG = JStr ''10'', totalBalance = JStr ''7'',
         sourceBalance = None \<rparr>,
       \<lparr> walletAddress = ''0x2'', totalBalanceREG = Undefined, totalBalance = JStr ''7'',
         sourceBalance = None \<rparr>,
       \<lparr> walletAddress = ''0x3'', totalBalanceREG = Undefined, totalBalance = Undefined,
         sourceBalance = None \<rparr> ]"

text \<open>
  A wallet with a position of 0 REG on one exchange and a position of 5 REG on another.
\<close>

definition c6_wallet :: BalanceData where
  "c6_wallet = wallet_with ''0x6'' (JStr ''5'')
     (Some [(''gnosis'', Some [(''sushiswap'', Some [v2_position ''0'' ''0xZ'']),
                              (''honeyswap'', Some [v2_position ''5'' ''0xQ''])])])"

text \<open>
  Snapshots of three dates; the load of \<open>01-01-2025\<close> throws, the other loads return a
  balance of 5 and a power of 3 for the address.  The current data has 9 and 4.
\<close>

definition snapshot_of :: "string \<Rightarrow> SnapshotInfo" where
  "snapshot_of d = \<lparr> date = d, dateFormatted = d, balancesFile = ''balances.json'',
     powerVotingFile = ''power.json'' \<rparr>"

definition c7_load :: loader where
  "c7_load s =
     (if date s = ''01-01-2025'' then Inl LoadFailed
      else Inr (Bare [wallet_with ''0xA'' (JStr ''5'') None],
                Wrapped [\<lparr> address = ''0xa'', powerVoting = JStr ''3'' \<rparr>]))"

definition c7_fmt :: "string \<Rightarrow> string" where
  "c7_fmt d = d"

definition c7_balances :: "BalanceData list" where
  "c7_balances = [wallet_with ''0xa'' (JStr ''9'') None]"

definition c7_power :: "PowerVotingData list" where
  "c7_power = [\<lparr> address = ''0xA'', powerVoting = JStr ''4'' \<rparr>]"

text \<open>Three rows: a balance of 250, a balance written \<open>Infinity\<close>, and a balance of 0.\<close>

definition c8_balances :: "BalanceData list" where
  "c8_balances =
     [ wallet_with ''0x1'' (JStr ''250'') None,
       wallet_with ''0x2'' (JStr ''Infinity'') None,
       wallet_with ''0x3'' (JStr ''0'') None ]"

text \<open>
  Seven rows with the balances 99.5, 100, 20000, -3, 7, a text that is not a number, and 0.
\<close>

definition c8_good_balances :: "BalanceData list" where
  "c8_good_balances =
     [ wallet_with ''0x1'' (JNum (Fin (199 / 2))) None,
       wallet_with ''0x2'' (JStr ''100'') None,
       wallet_with ''0x3'' (JStr ''20000'') None,
       wallet_with ''0x4'' (JStr ''-3'') None,
       wallet_with ''0x5'' (JStr ''7'') None,
       wallet_with ''0x6'' (JStr ''abc'') None,
       wallet_with ''0x7'' (JStr ''0'') None ]"

text \<open>Scenario D of the specification: two rows with the balances 10 and 30.\<close>

definition scenario_d_balances :: "BalanceData list" where
  "scenario_d_balances =
     [ wallet_with ''0x1'' (JStr ''10'') None, wallet_with ''0x2'' (JStr ''30'') None ]"

text \<open>One row, its balance written \<open>Infinity\<close>.\<close>

definition c9_balances :: "BalanceData list" where
  "c9_balances = [wallet_with ''0x1'' (JStr ''Infinity'') None]"

section \<open>Rounding\<close>

lemma round_even_nonneg: "0 \<le> x \<Longrightarrow> 0 \<le> round_even x"
  by (auto simp: round_even_def Let_def)

lemma round_even_nonpos:
  assumes "x \<le> 0"
  shows "round_even x \<le> 0"
proof (cases "x = 0")
  case True
  then show ?thesis by (simp add: round_even_def)
next
  case False
  with assms have "x < 0" by simp
  then have "\<lfloor>x\<rfloor> \<le> - 1" by (simp add: floor_le_iff)
  then show ?thesis by (auto simp: round_even_def Let_def)
qed

lemma round_even_of_int: "round_even (of_int k) = k"
  by (simp add: round_even_def)

lemma ulp_search_Some:
  "ulp_search n e a = Some e' \<Longrightarrow>
     e \<le> e' \<and> e' < e + int n \<and> a < 2 powi (e' + 53) \<and> (e' = e \<or> 2 powi (e' + 52) \<le> a)"
proof (induction n arbitrary: e)
  case 0
  then show ?case by simp
next
  case (Suc n)
  show ?case
  proof (cases "a < 2 powi (e + 53)")
    case True
    with Suc.prems show ?thesis by simp
  next
    case False
    with Suc.prems have "ulp_search n (e + 1) a = Some e'" by simp
    from Suc.IH [OF this] False show ?thesis
      by (auto simp: add.commute add.left_commute)
  qed
qed

lemma ulp_search_eqI:
  "e \<le> e' \<Longrightarrow> e' < e + int n \<Longrightarrow> a < 2 powi (e' + 53) \<Longrightarrow> e' = e \<or> 2 powi (e' + 52) \<le> a
     \<Longrightarrow> ulp_search n e a = Some e'"
proof (induction n arbitrary: e)
  case 0
  then show ?case by simp
next
  case (Suc n)
  show ?case
  proof (cases "a < 2 powi (e + 53)")
    case True
    have "e' = e"
    proof (rule ccontr)
      assume "e' \<noteq> e"
      with Suc.prems have "2 powi (e' + 52) \<le> a" and "e < e'" by auto
      with True have "(2::real) powi (e' + 52) < 2 powi (e + 53)" by simp
      moreover from \<open>e < e'\<close> have "(2::real) powi (e + 53) \<le> 2 powi (e' + 52)"
        by (intro power_int_increasing) auto
      ultimately show False by simp
    qed
    with True show ?thesis by simp
  next
    case False
    with Suc.prems have "e' \<noteq> e" by auto
    with Suc.prems have "ulp_search n (e + 1) a = Some e'"
      by (intro Suc.IH) auto
    with False show ?thesis by simp
  qed
qed

lemma ulp_search_zero: "ulp_search 2046 (- 1074) 0 = Some (- 1074)"
  by (rule ulp_search_eqI) simp_all

lemma fl_zero: "fl 0 = Fin 0"
  by (simp add: fl_def ulp_search_zero round_even_def)

lemma fl_cases: "fl x = overflow x \<or> (\<exists>e. fl x = Fin (of_int (round_even (x / 2 powi e)) * 2 powi e))"
  by (auto simp: fl_def Let_def split: option.splits)

lemma fl_not_NaN: "fl x \<noteq> NaN"
  using fl_cases [of x] by (auto simp: overflow_def split: if_splits)

lemma fl_nonneg: "0 \<le> x \<Longrightarrow> jle (Fin 0) (fl x)"
proof -
  assume x: "0 \<le> x"
  from fl_cases [of x] show ?thesis
  proof
    assume "fl x = overflow x"
    with x show ?thesis by (simp add: overflow_def jle_def jlt_def)
  next
    assume "\<exists>e. fl x = Fin (of_int (round_even (x / 2 powi e)) * 2 powi e)"
    then obtain e where e: "fl x = Fin (of_int (round_even (x / 2 powi e)) * 2 powi e)" ..
    from x have "0 \<le> x / 2 powi e" by simp
    then have "0 \<le> round_even (x / 2 powi e)" by (rule round_even_nonneg)
    then have "(0::real) \<le> of_int (round_even (x / 2 powi e)) * 2 powi e" by simp
    with e show ?thesis by (auto simp: jle_def jlt_def)
  qed
qed

lemma fl_nonpos: "x \<le> 0 \<Longrightarrow> jle (fl x) (Fin 0)"
proof (cases "x = 0")
  case True
  then show ?thesis by (simp add: fl_zero jle_def)
next
  case False
  assume "x \<le> 0"
  with False have x: "x < 0" by simp
  from fl_cases [of x] show ?thesis
  proof
    assume "fl x = overflow x"
    with x show ?thesis by (simp add: overflow_def jle_def jlt_def)
  next
    assume "\<exists>e. fl x = Fin (of_int (round_even (x / 2 powi e)) * 2 powi e)"
    then obtain e where e: "fl x = Fin (of_int (round_even (x / 2 powi e)) * 2 powi e)" ..
    from x have "x / 2 powi e \<le> 0" by (simp add: divide_nonpos_pos)
    then have "round_even (x / 2 powi e) \<le> 0" by (rule round_even_nonpos)
    then have "of_int (round_even (x / 2 powi e)) * 2 powi e \<le> (0::real)"
      by (simp add: mult_nonpos_nonneg)
    with e show ?thesis by (auto simp: jle_def jlt_def)
  qed
qed

lemma ulp_search_None:
  "ulp_search n e a = None \<Longrightarrow> 0 < n \<Longrightarrow> 2 powi (e + int n + 52) \<le> a"
proof (induction n arbitrary: e)
  case 0
  then show ?case by simp
next
  case (Suc n)
  from Suc.prems have big: "\<not> a < 2 powi (e + 53)" and rest: "ulp_search n (e + 1) a = None"
    by (auto split: if_splits)
  show ?case
  proof (cases "n = 0")
    case True
    with big show ?thesis by (simp add: add.commute)
  next
    case False
    with Suc.IH [OF rest] have "2 powi (e + 1 + int n + 52) \<le> a" by simp
    then show ?thesis by (simp add: add.commute add.left_commute)
  qed
qed

lemma ulp_search_found:
  assumes "a < 2 powi 1024"
  shows "\<exists>e. ulp_search 2046 (- 1074) a = Some e"
proof (cases "ulp_search 2046 (- 1074) a")
  case None
  then have "2 powi (- 1074 + int 2046 + 52) \<le> a" by (rule ulp_search_None) simp
  with assms show ?thesis by simp
next
  case (Some e)
  then show ?thesis by simp
qed

text \<open>How \<open>fl\<close> rounds a number whose exponent is known.\<close>

lemma fl_eqI:
  assumes "- 1074 \<le> e" and "e \<le> 971" and "\<bar>x\<bar> < 2 powi (e + 53)"
    and "e = - 1074 \<or> 2 powi (e + 52) \<le> \<bar>x\<bar>"
  shows "fl x = (let r = of_int (round_even (x / 2 powi e)) * 2 powi e in
                 if 2 powi 1024 \<le> \<bar>r\<bar> then overflow x else Fin r)"
proof -
  have "ulp_search 2046 (- 1074) \<bar>x\<bar> = Some e"
    using assms by (intro ulp_search_eqI) auto
  then show ?thesis by (simp add: fl_def)
qed

text \<open>
  The numbers \<open>m * 2 ^ e\<close> with \<open>\<bar>m\<bar> \<le> 2 ^ 53\<close> and \<open>- 1074 \<le> e\<close> below the overflow
  threshold are binary64 values: rounding leaves them as they are.
\<close>

lemma fl_exact:
  assumes x: "x = of_int m * 2 powi e" and e: "- 1074 \<le> e" and m: "\<bar>m\<bar> \<le> 2 ^ 53"
    and small: "\<bar>x\<bar> < 2 powi 1024"
  shows "fl x = Fin x"
proof -
  from ulp_search_found [OF small] obtain e0 where e0: "ulp_search 2046 (- 1074) \<bar>x\<bar> = Some e0" ..
  from ulp_search_Some [OF e0]
  have lo: "- 1074 \<le> e0" and up: "\<bar>x\<bar> < 2 powi (e0 + 53)"
    and least: "e0 = - 1074 \<or> 2 powi (e0 + 52) \<le> \<bar>x\<bar>" by auto
  have "\<exists>k::int. x / 2 powi e0 = of_int k"
  proof (cases "e0 \<le> e")
    case True
    have "x / 2 powi e0 = of_int m * 2 powi (e - e0)"
      by (simp add: x power_int_diff)
    also have "\<dots> = of_int (m * 2 ^ nat (e - e0))"
      using True by (simp add: power_int_def)
    finally show ?thesis by blast
  next
    case False
    with e have "e0 \<noteq> - 1074" by simp
    with least have ge: "2 powi (e0 + 52) \<le> \<bar>x\<bar>" by simp
    have ax: "\<bar>x\<bar> = of_int \<bar>m\<bar> * 2 powi e" by (simp add: x abs_mult)
    have "of_int \<bar>m\<bar> \<le> (2::real) ^ 53" using m by (metis of_int_le_iff of_int_numeral of_int_power)
    then have "\<bar>x\<bar> \<le> 2 ^ 53 * 2 powi e" unfolding ax by (intro mult_right_mono) auto
    also have "\<dots> = 2 powi (e + 53)" by (simp add: power_int_add)
    finally have le: "\<bar>x\<bar> \<le> 2 powi (e + 53)" .
    with ge have "(2::real) powi (e0 + 52) \<le> 2 powi (e + 53)" by simp
    then have "e0 + 52 \<le> e + 53"
      by (metis less_le_not_le linorder_le_less_linear one_less_numeral_iff power_int_strict_increasing semiring_norm(76))
    with False have e0e: "e0 = e + 1" by simp
    with ge le have "\<bar>x\<bar> = 2 powi (e + 53)" by (simp add: add.commute)
    then have "\<bar>x\<bar> / 2 powi e0 = 2 powi (e + 53) / 2 powi (e + 1)" by (simp add: e0e)
    also have "\<dots> = 2 powi 52" by (simp flip: power_int_diff)
    finally have "\<bar>x / 2 powi e0\<bar> = of_int (2 ^ 52)" by simp
    then have "x / 2 powi e0 = of_int (2 ^ 52) \<or> x / 2 powi e0 = of_int (- (2 ^ 52))"
      by (auto simp: abs_if split: if_splits)
    then show ?thesis by blast
  qed
  then obtain k :: int where k: "x / 2 powi e0 = of_int k" ..
  have "of_int (round_even (x / 2 powi e0)) * 2 powi e0 = (x / 2 powi e0) * 2 powi e0"
    unfolding k round_even_of_int ..
  then have "of_int (round_even (x / 2 powi e0)) * 2 powi e0 = x" by simp
  with e0 small show ?thesis by (simp add: fl_def Let_def)
qed

lemma fl_of_int: "\<bar>k\<bar> \<le> 2 ^ 53 \<Longrightarrow> fl (of_int k) = Fin (of_int k)"
proof -
  assume k: "\<bar>k\<bar> \<le> 2 ^ 53"
  then have "\<bar>of_int k :: real\<bar> \<le> 2 ^ 53"
    by (metis of_int_abs of_int_le_iff of_int_numeral of_int_power)
  also have "\<dots> < (2::real) powi 1024" by simp
  finally show ?thesis using k by (intro fl_exact [where m = k and e = 0]) auto
qed

lemma round_even_bounds: "\<lfloor>y\<rfloor> \<le> round_even y \<and> round_even y \<le> \<lfloor>y\<rfloor> + 1"
  by (simp add: round_even_def Let_def)

lemma round_even_abs_le:
  assumes "\<bar>y\<bar> < 2 ^ 53"
  shows "\<bar>round_even y\<bar> \<le> 2 ^ 53"
proof -
  from assms have "y < of_int (2 ^ 53)" and "of_int (- (2 ^ 53)) \<le> y" by auto
  then have "\<lfloor>y\<rfloor> < 2 ^ 53" and "- (2 ^ 53) \<le> \<lfloor>y\<rfloor>"
    by (simp_all only: floor_less_iff le_floor_iff)
  with round_even_bounds [of y] show ?thesis by linarith
qed

text \<open>Every finite result of rounding is a binary64 value.\<close>

lemma fl_Fin_form:
  assumes "fl x = Fin r"
  shows "\<exists>m e. r = of_int m * 2 powi e \<and> - 1074 \<le> e \<and> \<bar>m\<bar> \<le> 2 ^ 53 \<and> \<bar>r\<bar> < 2 powi 1024"
proof (cases "ulp_search 2046 (- 1074) \<bar>x\<bar>")
  case None
  with assms show ?thesis by (simp add: fl_def overflow_def split: if_splits)
next
  case (Some e)
  from ulp_search_Some [OF Some] have lo: "- 1074 \<le> e" and up: "\<bar>x\<bar> < 2 powi (e + 53)" by auto
  let ?m = "round_even (x / 2 powi e)"
  from assms Some have r: "r = of_int ?m * 2 powi e" and small: "\<bar>r\<bar> < 2 powi 1024"
    by (auto simp: fl_def Let_def overflow_def split: if_splits)
  have "\<bar>x / 2 powi e\<bar> = \<bar>x\<bar> / 2 powi e" by simp
  also have "\<dots> < 2 powi (e + 53) / 2 powi e" using up by (simp add: divide_strict_right_mono)
  also have "\<dots> = 2 ^ 53" by (simp add: power_int_add)
  finally have "\<bar>?m\<bar> \<le> 2 ^ 53" by (rule round_even_abs_le)
  with r lo small show ?thesis by blast
qed

lemma fl_binary64: "fl x = Fin r \<Longrightarrow> binary64 r"
proof -
  assume "fl x = Fin r"
  from fl_Fin_form [OF this] obtain m e
    where "r = of_int m * 2 powi e" "- 1074 \<le> e" "\<bar>m\<bar> \<le> 2 ^ 53" "\<bar>r\<bar> < 2 powi 1024" by blast
  then show ?thesis unfolding binary64_def by (rule fl_exact)
qed

lemma binary64_0: "binary64 0"
  by (simp add: binary64_def fl_zero)

lemma binary64_of_int: "\<bar>k\<bar> \<le> 2 ^ 53 \<Longrightarrow> binary64 (of_int k)"
  by (simp add: binary64_def fl_of_int)

text \<open>The binary64 values are whole multiples of the least positive one.\<close>

lemma pow2_grid:
  assumes "(r::real) = of_int m * 2 powi e" and "g \<le> e"
  shows "\<exists>k::int. r = of_int k * 2 powi g"
proof -
  have "(2::real) powi e = 2 powi (e - g) * 2 powi g"
    by (simp flip: power_int_add)
  also have "(2::real) powi (e - g) = of_int (2 ^ nat (e - g))"
    using assms(2) by (simp add: power_int_def)
  finally have "r = of_int (m * 2 ^ nat (e - g)) * 2 powi g"
    by (simp add: assms(1))
  then show ?thesis by blast
qed

lemma binary64_grid:
  assumes "binary64 x"
  shows "\<exists>k::int. x = of_int k * 2 powi (- 1074)"
proof -
  from assms have "fl x = Fin x" by (simp add: binary64_def)
  from fl_Fin_form [OF this] obtain m e where "x = of_int m * 2 powi e" and "- 1074 \<le> e"
    by blast
  then show ?thesis by (rule pow2_grid)
qed

lemma fl_pos:
  assumes "2 powi (- 1074) \<le> x"
  shows "jlt (Fin 0) (fl x)"
proof -
  have g: "(0::real) < 2 powi (- 1074)" by simp
  with assms have x: "0 < x" by linarith
  show ?thesis
  proof (cases "ulp_search 2046 (- 1074) \<bar>x\<bar>")
    case None
    with x show ?thesis by (simp add: fl_def overflow_def jlt_def)
  next
    case (Some e)
    from ulp_search_Some [OF Some]
    have least: "e = - 1074 \<or> 2 powi (e + 52) \<le> \<bar>x\<bar>" by auto
    have "1 \<le> x / 2 powi e"
    proof (cases "e = - 1074")
      case True
      with assms show ?thesis by (simp add: le_divide_eq)
    next
      case False
      with least x have "2 powi (e + 52) \<le> x" by simp
      moreover have "(2::real) powi e \<le> 2 powi (e + 52)" by (intro power_int_increasing) auto
      ultimately have "2 powi e \<le> x" by linarith
      then show ?thesis by (simp add: le_divide_eq)
    qed
    then have "1 \<le> \<lfloor>x / 2 powi e\<rfloor>" by (simp add: le_floor_iff)
    with round_even_bounds [of "x / 2 powi e"] have "1 \<le> round_even (x / 2 powi e)" by linarith
    then have "(0::real) < of_int (round_even (x / 2 powi e)) * 2 powi e" by simp
    with Some x show ?thesis by (simp add: fl_def Let_def overflow_def jlt_def)
  qed
qed

text \<open>The sign of a rounded difference of two binary64 values is the sign of the difference.\<close>

lemma fl_diff_pos_iff:
  assumes "binary64 a" and "binary64 b"
  shows "jlt (Fin 0) (fl (b - a)) \<longleftrightarrow> a < b"
proof
  assume pos: "jlt (Fin 0) (fl (b - a))"
  show "a < b"
  proof (rule ccontr)
    assume "\<not> a < b"
    then have "b - a \<le> 0" by simp
    then have "jle (fl (b - a)) (Fin 0)" by (rule fl_nonpos)
    with pos show False by (auto simp: jle_def jlt_def split: jsnum.splits)
  qed
next
  assume lt: "a < b"
  define g :: real where "g = 2 powi (- 1074)"
  have g: "0 < g" by (simp add: g_def)
  from binary64_grid [OF assms(1)] obtain ka :: int where a: "a = of_int ka * g"
    unfolding g_def ..
  from binary64_grid [OF assms(2)] obtain kb :: int where b: "b = of_int kb * g"
    unfolding g_def ..
  from lt g have "ka < kb" by (simp add: a b)
  then have "1 \<le> kb - ka" by simp
  then have "(1::real) \<le> of_int (kb - ka)" by (simp only: of_int_1_le_iff)
  with g have "1 * g \<le> of_int (kb - ka) * g"
    by (intro mult_right_mono) auto
  also have "\<dots> = b - a" by (simp add: a b algebra_simps)
  finally have "2 powi (- 1074) \<le> b - a" by (simp add: g_def)
  then show "jlt (Fin 0) (fl (b - a))" by (rule fl_pos)
qed

lemma jsub_pos_iff:
  assumes "numeric a" and "numeric b"
  shows "jlt (Fin 0) (jsub b a) \<longleftrightarrow> jlt a b"
proof (cases a)
  case (Fin x)
  show ?thesis
  proof (cases b)
    case (Fin y)
    with \<open>a = Fin x\<close> assms have "jlt (Fin 0) (jsub b a) \<longleftrightarrow> x < y"
      by (simp add: jsub_def numeric_def fl_diff_pos_iff)
    with \<open>a = Fin x\<close> Fin show ?thesis by (simp add: jlt_def)
  qed (use \<open>a = Fin x\<close> assms in \<open>simp_all add: jsub_def jlt_def numeric_def\<close>)
qed (use assms in \<open>auto simp: jsub_def jlt_def numeric_def split: jsnum.splits\<close>)

lemma jadd_numeric: "jadd a b \<noteq> NaN \<Longrightarrow> numeric (jadd a b)"
  by (auto simp: jadd_def numeric_def fl_binary64 split: jsnum.splits)

lemma jsub_numeric: "jsub a b \<noteq> NaN \<Longrightarrow> numeric (jsub a b)"
  by (auto simp: jsub_def numeric_def fl_binary64 split: jsnum.splits)

subsection \<open>Evaluation\<close>

lemma fl_numeral: "numeral n \<le> (2::int) ^ 53 \<Longrightarrow> fl (numeral n) = Fin (numeral n)"
  using fl_of_int [of "numeral n"] by simp

lemma fl_1: "fl 1 = Fin 1"
  using fl_of_int [of 1] by simp

lemma fl_neg_numeral: "numeral n \<le> (2::int) ^ 53 \<Longrightarrow> fl (- numeral n) = Fin (- numeral n)"
  using fl_of_int [of "- numeral n"] by simp

lemma binary64_numeral: "numeral n \<le> (2::int) ^ 53 \<Longrightarrow> binary64 (numeral n)"
  by (simp add: binary64_def fl_numeral)

text \<open>\<open>2 ^ 53 + 1\<close> lies halfway between two binary64 values and rounds to the even one.\<close>

lemma fl_2p53_plus1: "fl 9007199254740993 = Fin 9007199254740992"
  by (subst fl_eqI [where e = 1]) (simp_all add: round_even_def)

text \<open>
  Decimal fractions are rounded when they are read: \<open>0.4\<close> and \<open>1.7\<close> are the binary64
  values \<open>3602879701896397 / 2 ^ 53\<close> and \<open>7656119366529843 / 2 ^ 52\<close>.
\<close>

lemma fl_0_4: "fl (2 / 5) = Fin (3602879701896397 / 9007199254740992)"
  by (subst fl_eqI [where e = "- 54"]) (simp_all add: round_even_def)

lemma fl_1_7: "fl (17 / 10) = Fin (7656119366529843 / 4503599627370496)"
  by (subst fl_eqI [where e = "- 52"]) (simp_all add: round_even_def)

text \<open>
  The read value of \<open>0.4\<close> and its difference from 1 (printed \<open>0.6\<close>) are exact; taking that
  difference from the read value of \<open>1.7\<close> and adding it back are both ties, rounded to the
  even significand.
\<close>

lemma fl_0_4_exact:
  "fl (3602879701896397 / 9007199254740992) = Fin (3602879701896397 / 9007199254740992)"
  by (subst fl_eqI [where e = "- 54"]) (simp_all add: round_even_def)

lemma fl_0_6_exact:
  "fl (5404319552844595 / 9007199254740992) = Fin (5404319552844595 / 9007199254740992)"
  by (subst fl_eqI [where e = "- 53"]) (simp_all add: round_even_def)

lemma fl_1_7_minus_0_6:
  "fl (9907919180215091 / 9007199254740992) = Fin (2476979795053773 / 2251799813685248)"
  by (subst fl_eqI [where e = "- 52"]) (simp_all add: round_even_def)

lemma fl_0_6_plus_1_1:
  "fl (15312238733059687 / 9007199254740992) = Fin (1914029841632461 / 1125899906842624)"
  by (subst fl_eqI [where e = "- 52"]) (simp_all add: round_even_def)

text \<open>The read value of \<open>0.6\<close> is the difference of 1 and the read value of \<open>0.4\<close>.\<close>

lemma fl_0_6: "fl (3 / 5) = Fin (5404319552844595 / 9007199254740992)"
  by (subst fl_eqI [where e = "- 53"]) (simp_all add: round_even_def)

lemmas decimal_evals = fl_0_4 fl_1_7 fl_0_6 fl_0_4_exact fl_0_6_exact fl_1_7_minus_0_6
  fl_0_6_plus_1_1

lemma jlt_simps [simp]:
  "jlt (Fin x) (Fin y) = (x < y)"
  "jlt NaN b = False" "jlt a NaN = False"
  "jlt a NInf = False" "jlt PInf b = False"
  "jlt NInf (Fin y) = True" "jlt NInf PInf = True" "jlt (Fin x) PInf = True"
  by (auto simp: jlt_def split: jsnum.splits)

lemma jle_simps [simp]:
  "jle (Fin x) (Fin y) = (x \<le> y)"
  "jle NaN b = False" "jle a NaN = False"
  "jle NInf (Fin y) = True" "jle (Fin x) PInf = True" "jle NInf PInf = True"
  "jle PInf PInf = True" "jle NInf NInf = True"
  "jle PInf (Fin y) = False" "jle (Fin x) NInf = False" "jle PInf NInf = False"
  by (auto simp: jle_def)

lemma jsub_Fin: "jsub (Fin x) (Fin y) = fl (x - y)"
  by (simp add: jsub_def)

lemma jadd_Fin: "jadd (Fin x) (Fin y) = fl (x + y)"
  by (simp add: jadd_def)

lemma jsub_NaN: "jsub NaN b = NaN" "jsub a NaN = NaN"
  by (simp_all add: jsub_def split: jsnum.splits)

lemma jadd_NaN: "jadd NaN b = NaN" "jadd a NaN = NaN"
  by (simp_all add: jadd_def split: jsnum.splits)

lemmas parse_defs = parseFloat_def parse_unsigned_def is_ws_def is_digit_def digits_val_def
  parse_exponent_def parseFloat_String_def js_or_def truthy_def resolvedBalance_def
  resolvedPower_def regAmountOf_def or0_def

lemmas fl_evals = fl_zero fl_1 fl_numeral fl_neg_numeral jadd_Fin jsub_Fin

lemmas profile_defs = addressPoolProfiles_def List.map_filter_simps addressPoolProfile_def
  walletPositions_def networkPositions_def dexPositions_def annotate_def isV3_def dexKey_def
  PoolPosition.defs AddressPoolPosition.defs v2_position_def wallet_with_def

lemmas correlation_defs = poolPowerCorrelation_def js_sort_def correlate_def powerMap_def
  powerValueOf_def powerMap_get_def toLowerCase_def char_of_def bit_0 bit_Suc_0_iff Math_max_def Math_min_def
  jdiv_def Let_def AddressPoolProfile.defs PoolPowerCorrelation.defs

subsection \<open>The attribution of the voting power\<close>

lemma correlate_sel:
  "corr_powerVoting (correlate pm p) = powerValueOf pm (profile_address p)"
  "walletDirectREG (correlate pm p) = Math_max (jsub (walletREG p) (poolLiquidityREG p)) (Fin 0)"
  "walletVotingShare (correlate pm p) =
     Math_min (powerValueOf pm (profile_address p))
       (Math_max (jsub (walletREG p) (poolLiquidityREG p)) (Fin 0))"
  "poolVotingShare (correlate pm p) =
     Math_max (jsub (powerValueOf pm (profile_address p))
       (Math_max (jsub (walletREG p) (poolLiquidityREG p)) (Fin 0))) (Fin 0)"
  "profile_address (correlate pm p) = profile_address p"
  "walletREG (correlate pm p) = walletREG p"
  "poolLiquidityREG (correlate pm p) = poolLiquidityREG p"
  "poolCount (correlate pm p) = poolCount p"
  "dexCount (correlate pm p) = dexCount p"
  "positions (correlate pm p) = positions p"
  by (simp_all add: correlate_def Let_def AddressPoolProfile.defs PoolPowerCorrelation.defs)

lemma Math_max_fl_0:
  "Math_max (fl x) (Fin 0) = (if x \<le> 0 then Fin 0 else fl x)"
proof (cases "x \<le> 0")
  case True
  from fl_nonpos [OF True] show ?thesis using True
    by (cases "fl x") (auto simp: Math_max_def)
next
  case False
  then have "0 \<le> x" by simp
  from fl_nonneg [OF this] show ?thesis using False
    by (cases "fl x") (auto simp: Math_max_def)
qed

subsection \<open>Sorting\<close>

lemma mset_js_insert: "mset (js_insert cmp x ys) = add_mset x (mset ys)"
  by (induction ys) auto

lemma mset_js_sort: "mset (js_sort cmp xs) = mset xs"
  by (induction xs) (auto simp: js_sort_def mset_js_insert)

lemma set_js_sort: "set (js_sort cmp xs) = set xs"
  by (metis mset_js_sort set_mset_mset)

lemma length_js_sort: "length (js_sort cmp xs) = length xs"
  by (metis mset_js_sort size_mset)

lemma js_sort_Cons: "js_sort cmp (x # xs) = js_insert cmp x (js_sort cmp xs)"
  by (simp add: js_sort_def)

lemma js_sort_Nil: "js_sort cmp [] = []"
  by (simp add: js_sort_def)

text \<open>
  A comparator that is positive exactly where a total, transitive relation \<open>R\<close> fails
  sorts by \<open>R\<close>.
\<close>

lemma set_js_insert: "set (js_insert cmp x ys) = insert x (set ys)"
  by (induction ys) auto

lemma sorted_wrt_js_insert:
  assumes cmp: "\<And>y. y \<in> set ys \<Longrightarrow> jlt (Fin 0) (cmp x y) \<longleftrightarrow> \<not> R x y"
    and total: "\<And>y. y \<in> set ys \<Longrightarrow> R x y \<or> R y x"
    and trans: "\<And>y z. y \<in> set ys \<Longrightarrow> z \<in> set ys \<Longrightarrow> R x y \<Longrightarrow> R y z \<Longrightarrow> R x z"
    and sorted: "sorted_wrt R ys"
  shows "sorted_wrt R (js_insert cmp x ys)"
  using assms
proof (induction ys)
  case Nil
  then show ?case by simp
next
  case (Cons y ys)
  from Cons.prems(4) have tail: "sorted_wrt R ys" and head: "\<forall>z \<in> set ys. R y z" by simp_all
  show ?case
  proof (cases "jlt (Fin 0) (cmp x y)")
    case True
    with Cons.prems(1) [of y] have "\<not> R x y" by simp
    with Cons.prems(2) [of y] have yx: "R y x" by auto
    have "sorted_wrt R (js_insert cmp x ys)"
    proof (rule Cons.IH)
      fix z assume "z \<in> set ys"
      then show "jlt (Fin 0) (cmp x z) \<longleftrightarrow> \<not> R x z" using Cons.prems(1) [of z] by simp
    next
      fix z assume "z \<in> set ys"
      then show "R x z \<or> R z x" using Cons.prems(2) [of z] by simp
    next
      fix z w assume "z \<in> set ys" "w \<in> set ys" "R x z" "R z w"
      then show "R x w" using Cons.prems(3) [of z w] by simp
    next
      show "sorted_wrt R ys" by (rule tail)
    qed
    moreover have "\<forall>z \<in> set (js_insert cmp x ys). R y z"
      using yx head by (simp add: set_js_insert)
    ultimately show ?thesis using True by simp
  next
    case False
    with Cons.prems(1) [of y] have xy: "R x y" by simp
    have "\<forall>z \<in> set ys. R x z"
    proof
      fix z assume z: "z \<in> set ys"
      with head have "R y z" by simp
      with xy z show "R x z" using Cons.prems(3) [of y z] by simp
    qed
    with xy False Cons.prems(4) show ?thesis by simp
  qed
qed

lemma sorted_wrt_js_sort:
  assumes "\<forall>x \<in> set xs. \<forall>y \<in> set xs. jlt (Fin 0) (cmp x y) \<longleftrightarrow> \<not> R x y"
    and "\<forall>x \<in> set xs. \<forall>y \<in> set xs. R x y \<or> R y x"
    and "\<forall>x \<in> set xs. \<forall>y \<in> set xs. \<forall>z \<in> set xs. R x y \<longrightarrow> R y z \<longrightarrow> R x z"
  shows "sorted_wrt R (js_sort cmp xs)"
  using assms
proof (induction xs)
  case Nil
  show ?case by (simp add: js_sort_Nil)
next
  case (Cons x xs)
  note c = Cons.prems(1) and t = Cons.prems(2) and tr = Cons.prems(3)
  have sub: "\<And>a. a \<in> set xs \<Longrightarrow> a \<in> set (x # xs)" and hd: "x \<in> set (x # xs)"
    by simp_all
  have IH: "sorted_wrt R (js_sort cmp xs)"
  proof (rule Cons.IH)
    show "\<forall>x \<in> set xs. \<forall>y \<in> set xs. jlt (Fin 0) (cmp x y) \<longleftrightarrow> \<not> R x y"
      using c sub by blast
    show "\<forall>x \<in> set xs. \<forall>y \<in> set xs. R x y \<or> R y x"
      using t sub by blast
    show "\<forall>x \<in> set xs. \<forall>y \<in> set xs. \<forall>z \<in> set xs. R x y \<longrightarrow> R y z \<longrightarrow> R x z"
      using tr sub by blast
  qed
  have "sorted_wrt R (js_insert cmp x (js_sort cmp xs))"
  proof (rule sorted_wrt_js_insert)
    fix y assume "y \<in> set (js_sort cmp xs)"
    then have "y \<in> set (x # xs)" by (simp only: set_js_sort sub)
    with c hd show "jlt (Fin 0) (cmp x y) \<longleftrightarrow> \<not> R x y" by blast
  next
    fix y assume "y \<in> set (js_sort cmp xs)"
    then have "y \<in> set (x # xs)" by (simp only: set_js_sort sub)
    with t hd show "R x y \<or> R y x" by blast
  next
    fix y z assume "y \<in> set (js_sort cmp xs)" "z \<in> set (js_sort cmp xs)" and r: "R x y" "R y z"
    then have "y \<in> set (x # xs)" "z \<in> set (x # xs)" by (simp_all only: set_js_sort sub)
    with tr hd r show "R x z" by blast
  next
    show "sorted_wrt R (js_sort cmp xs)" by (rule IH)
  qed
  then show ?case by (simp only: js_sort_Cons)
qed

subsection \<open>The profiles of the wallets\<close>

lemma dexPositions_empty_iff:
  "dexPositions n d = [] \<longleftrightarrow> \<not> (case snd d of None \<Rightarrow> False | Some raw \<Rightarrow> list_ex survives raw)"
  by (auto simp: dexPositions_def survives_def list_ex_iff filter_empty_conv split: option.splits)

lemma networkPositions_empty_iff:
  "networkPositions n = [] \<longleftrightarrow>
     \<not> (case snd n of None \<Rightarrow> False
        | Some ds \<Rightarrow> list_ex (\<lambda>d. case snd d of None \<Rightarrow> False | Some raw \<Rightarrow> list_ex survives raw) ds)"
  by (auto simp: networkPositions_def dexPositions_empty_iff list_ex_iff split: option.splits)

lemma walletPositions_empty_iff:
  "walletPositions networks = [] \<longleftrightarrow>
     \<not> list_ex (\<lambda>n. case snd n of None \<Rightarrow> False
        | Some ds \<Rightarrow> list_ex (\<lambda>d. case snd d of None \<Rightarrow> False | Some raw \<Rightarrow> list_ex survives raw) ds)
       networks"
  by (simp add: walletPositions_def networkPositions_empty_iff list_ex_iff)

lemma addressPoolProfile_None_iff:
  "addressPoolProfile w = None \<longleftrightarrow> \<not> has_surviving_position w"
  by (simp add: addressPoolProfile_def has_surviving_position_def Let_def
      walletPositions_empty_iff split: option.splits)

lemma addressPoolProfile_address:
  "addressPoolProfile w = Some p \<Longrightarrow> profile_address p = walletAddress w"
  by (auto simp: addressPoolProfile_def Let_def split: option.splits if_splits)

lemma foldl_jadd_numeric:
  assumes "ps \<noteq> []"
  shows "foldl (\<lambda>sum pos. jadd sum (g pos)) a ps = NaN
       \<or> numeric (foldl (\<lambda>sum pos. jadd sum (g pos)) a ps)"
proof (cases ps rule: rev_cases)
  case Nil
  with assms show ?thesis by simp
next
  case (snoc qs q)
  then show ?thesis using jadd_numeric by auto
qed

lemma addressPoolProfile_liquidity:
  assumes "addressPoolProfile w = Some p"
  shows "poolLiquidityREG p = NaN \<or> numeric (poolLiquidityREG p)"
proof -
  from assms obtain networks where ne: "walletPositions networks \<noteq> []"
    and "poolLiquidityREG p =
      foldl (\<lambda>sum pos. jadd sum (regAmount pos)) (Fin 0) (walletPositions networks)"
    by (auto simp: addressPoolProfile_def Let_def split: option.splits if_splits)
  with foldl_jadd_numeric [OF ne, of regAmount "Fin 0"] show ?thesis by simp
qed

lemma addressPoolProfiles_liquidity:
  assumes "p \<in> set (addressPoolProfiles balances)"
  shows "poolLiquidityREG p = NaN \<or> numeric (poolLiquidityREG p)"
proof -
  from assms obtain w where "addressPoolProfile w = Some p"
    by (auto simp: addressPoolProfiles_def List.map_filter_def)
  then show ?thesis by (rule addressPoolProfile_liquidity)
qed

lemma powerValueOf_empty: "powerValueOf (powerMap []) a = Fin 0"
  by (simp add: powerValueOf_def powerMap_def powerMap_get_def)

text \<open>Before they are sorted, the wallets of the correlation are those of the input, in its order.\<close>

lemma correlated_addresses:
  "map profile_address
     (filter (\<lambda>item. jlt (Fin 0) (corr_powerVoting item))
       (map (correlate pm) (addressPoolProfiles balances))) =
   map walletAddress
     (filter (\<lambda>w. has_surviving_position w \<and> jlt (Fin 0) (powerValueOf pm (walletAddress w)))
       balances)"
proof (induction balances)
  case Nil
  show ?case by (simp add: addressPoolProfiles_def List.map_filter_simps)
next
  case (Cons w balances)
  show ?case
  proof (cases "addressPoolProfile w")
    case None
    then have "\<not> has_surviving_position w" by (simp add: addressPoolProfile_None_iff)
    with None Cons.IH show ?thesis
      by (simp add: addressPoolProfiles_def List.map_filter_simps)
  next
    case (Some p)
    then have "has_surviving_position w"
      using addressPoolProfile_None_iff [of w] by simp
    moreover from Some have "profile_address p = walletAddress w"
      by (rule addressPoolProfile_address)
    ultimately show ?thesis using Some Cons.IH
      by (simp add: addressPoolProfiles_def List.map_filter_simps correlate_sel)
  qed
qed

lemma poolPowerCorrelation_unfold:
  "poolPowerCorrelation balances pv =
     js_sort (\<lambda>a b. jsub (poolLiquidityREG b) (poolLiquidityREG a))
       (filter (\<lambda>item. jlt (Fin 0) (corr_powerVoting item))
         (map (correlate (powerMap pv)) (addressPoolProfiles balances)))"
proof (cases "addressPoolProfiles balances = [] \<or> pv = []")
  case False
  then show ?thesis by (simp add: poolPowerCorrelation_def)
next
  case True
  then show ?thesis
  proof
    assume "addressPoolProfiles balances = []"
    then show ?thesis by (simp add: poolPowerCorrelation_def js_sort_Nil)
  next
    assume "pv = []"
    then show ?thesis
      by (simp add: poolPowerCorrelation_def correlate_sel powerValueOf_empty js_sort_Nil)
  qed
qed

lemma poolPowerCorrelation_liquidity:
  assumes "c \<in> set (poolPowerCorrelation balances pv)"
  shows "poolLiquidityREG c = NaN \<or> numeric (poolLiquidityREG c)"
proof -
  from assms obtain p where "p \<in> set (addressPoolProfiles balances)"
    and "c = correlate (powerMap pv) p"
    by (auto simp: poolPowerCorrelation_unfold set_js_sort)
  then show ?thesis using addressPoolProfiles_liquidity [of p balances]
    by (simp add: correlate_sel)
qed

lemma numeric_order:
  assumes "numeric a" and "numeric b"
  shows "\<not> jlt a b \<longleftrightarrow> jle b a"
  using assms by (cases a; cases b) (auto simp: numeric_def)

lemma jle_trans: "jle a b \<Longrightarrow> jle b c \<Longrightarrow> jle a c"
  by (cases a; cases b; cases c) auto

lemma jle_total: "numeric a \<Longrightarrow> numeric b \<Longrightarrow> jle a b \<or> jle b a"
  by (cases a; cases b) (auto simp: numeric_def)

text \<open>
  A list of two or more elements in descending order of \<open>poolLiquidityREG\<close> holds no NaN:
  NaN is neither above nor below another amount, wherever the sort places it.
\<close>

lemma descending_liquidity_NaN:
  assumes d: "descending_liquidity cs" and len: "2 \<le> length cs"
  shows "\<forall>c \<in> set cs. poolLiquidityREG c \<noteq> NaN"
proof
  fix c
  assume "c \<in> set cs"
  then obtain k where k: "k < length cs" and c: "cs ! k = c"
    by (auto simp: in_set_conv_nth)
  from d have ord: "\<And>i j. i < j \<Longrightarrow> j < length cs \<Longrightarrow>
      jle (poolLiquidityREG (cs ! j)) (poolLiquidityREG (cs ! i))"
    by (simp add: descending_liquidity_def sorted_wrt_iff_nth_less)
  show "poolLiquidityREG c \<noteq> NaN"
  proof (cases "k = 0")
    case True
    with len have "jle (poolLiquidityREG (cs ! 1)) (poolLiquidityREG (cs ! k))"
      by (intro ord) simp_all
    then show ?thesis unfolding c by (cases "poolLiquidityREG c") auto
  next
    case False
    with k have "jle (poolLiquidityREG (cs ! k)) (poolLiquidityREG (cs ! 0))"
      by (intro ord) simp_all
    then show ?thesis unfolding c by (cases "poolLiquidityREG c") auto
  qed
qed

subsection \<open>Positions that are skipped, networks that are not read\<close>

lemma foldl_filter_skip:
  assumes "\<And>st x. \<not> P x \<Longrightarrow> f st x = st"
  shows "foldl f st (filter P xs) = foldl f st xs"
  by (induction xs arbitrary: st) (simp_all add: assms)

lemma analysePosition_skip: "\<not> survives pos \<Longrightarrow> analysePosition d st pos = st"
  by (simp add: analysePosition_def survives_def)

lemma analyseDex_drop:
  "analyseDex st (fst d, map_option (filter survives) (snd d)) = analyseDex st d"
  by (cases "snd d") (simp_all add: analyseDex_def foldl_filter_skip analysePosition_skip)

lemma foldl_analyseDex_drop: "foldl analyseDex st (dropDexs ds) = foldl analyseDex st ds"
  by (induction ds arbitrary: st) (simp_all add: dropDexs_def analyseDex_drop)

lemma map_of_map_snd: "map_of (map (\<lambda>n. (fst n, f (snd n))) xs) k = map_option f (map_of xs k)"
  by (induction xs) auto

lemma gnosisDexs_drop: "gnosisDexs (dropNonPositive w) = map_option dropDexs (gnosisDexs w)"
  by (auto simp: gnosisDexs_def dropNonPositive_def dropNetworks_def map_of_map_snd
      split: option.splits)

lemma analyseWallet_drop: "analyseWallet st (dropNonPositive w) = analyseWallet st w"
  by (cases "gnosisDexs w") (simp_all add: analyseWallet_def gnosisDexs_drop foldl_analyseDex_drop)

lemma foldl_analyseWallet_drop:
  "foldl analyseWallet st (map dropNonPositive balances) = foldl analyseWallet st balances"
  by (induction balances arbitrary: st) (simp_all add: analyseWallet_drop)

lemma poolAnalysis_drop: "poolAnalysis (map dropNonPositive balances) = poolAnalysis balances"
  by (simp add: poolAnalysis_def foldl_analyseWallet_drop)

lemma dexPositions_drop:
  "dexPositions n (fst d, map_option (filter survives) (snd d)) = dexPositions n d"
  by (cases "snd d") (simp_all add: dexPositions_def survives_def)

lemma networkPositions_drop:
  "networkPositions (fst n, map_option dropDexs (snd n)) = networkPositions n"
  by (cases "snd n") (simp_all add: networkPositions_def dropDexs_def dexPositions_drop comp_def)

lemma walletPositions_drop: "walletPositions (dropNetworks networks) = walletPositions networks"
  by (simp add: walletPositions_def dropNetworks_def networkPositions_drop comp_def)

lemma addressPoolProfile_drop: "addressPoolProfile (dropNonPositive w) = addressPoolProfile w"
  by (cases "sourceBalance w")
    (simp_all add: addressPoolProfile_def dropNonPositive_def walletPositions_drop
      resolvedBalance_def Let_def)

lemma addressPoolProfiles_drop:
  "addressPoolProfiles (map dropNonPositive balances) = addressPoolProfiles balances"
  by (induction balances)
    (simp_all add: addressPoolProfiles_def List.map_filter_simps addressPoolProfile_drop
      split: option.split)

lemma regAmount_annotate: "regAmount (annotate n d pos) = regAmountOf pos"
  by (simp add: annotate_def PoolPosition.defs AddressPoolPosition.defs)

lemma walletPositions_kept:
  assumes "pos \<in> set (walletPositions networks)"
  shows "\<not> jle (regAmount pos) (Fin 0)"
proof -
  from assms obtain n d raw where "pos \<in> set (dexPositions n (d, Some raw))"
    by (auto simp: walletPositions_def networkPositions_def dexPositions_def
        split: option.splits)
  then show ?thesis by (auto simp: dexPositions_def regAmount_annotate)
qed

lemma addressPoolProfiles_positions:
  assumes "p \<in> set (addressPoolProfiles balances)" and "pos \<in> set (positions p)"
  shows "\<not> jle (regAmount pos) (Fin 0)"
proof -
  from assms(1) obtain w where "addressPoolProfile w = Some p"
    by (auto simp: addressPoolProfiles_def List.map_filter_def)
  then obtain networks where "positions p = walletPositions networks"
    by (auto simp: addressPoolProfile_def Let_def split: option.splits if_splits)
  with assms(2) show ?thesis by (simp add: walletPositions_kept)
qed

lemma map_of_filter_key: "map_of (filter (\<lambda>n. fst n = k) xs) k = map_of xs k"
  by (induction xs) auto

lemma gnosisDexs_onlyGnosis: "gnosisDexs (onlyGnosis w) = gnosisDexs w"
  by (cases "sourceBalance w") (simp_all add: gnosisDexs_def onlyGnosis_def map_of_filter_key)

lemma foldl_analyseWallet_onlyGnosis:
  "foldl analyseWallet st (map onlyGnosis balances) = foldl analyseWallet st balances"
  by (induction balances arbitrary: st) (simp_all add: analyseWallet_def gnosisDexs_onlyGnosis)

lemma poolAnalysis_onlyGnosis: "poolAnalysis (map onlyGnosis balances) = poolAnalysis balances"
  by (simp add: poolAnalysis_def foldl_analyseWallet_onlyGnosis)

lemmas analysis_defs = poolAnalysis_def analyseWallet_def gnosisDexs_def analyseDex_def
  analysePosition_def addToStats_def emptyStats_def Let_def

subsection \<open>The resolved amount of a row\<close>

lemma resolvedBalance_cases:
  "resolvedBalance b =
     (if truthy (totalBalanceREG b) then parseFloat_String (totalBalanceREG b)
      else if truthy (totalBalance b) then parseFloat_String (totalBalance b)
      else Fin 0)"
  by (simp add: resolvedBalance_def js_or_def parseFloat_String_def)

lemma stat_count_statsOf: "stat_count (statsOf values) = length values"
  by (simp add: statsOf_def Let_def)

lemma length_balanceValues:
  "length (balanceValues balances) = length (filter (\<lambda>b. resolvedBalance b \<noteq> NaN) balances)"
  by (induction balances) (simp_all add: balanceValues_def isNaN_def)

lemma balanceStats_count:
  "balanceStats balances = Some s \<Longrightarrow>
     stat_count s = length (filter (\<lambda>b. resolvedBalance b \<noteq> NaN) balances)"
  by (auto simp: balanceStats_def stat_count_statsOf length_balanceValues split: if_splits)

lemma balanceStats_None:
  "balanceStats balances = None \<longleftrightarrow> filter (\<lambda>b. resolvedBalance b \<noteq> NaN) balances = []"
proof -
  have "length (balanceValues balances) = 0 \<longleftrightarrow>
      length (filter (\<lambda>b. resolvedBalance b \<noteq> NaN) balances) = 0"
    by (simp only: length_balanceValues)
  then have "balanceValues balances = [] \<longleftrightarrow> filter (\<lambda>b. resolvedBalance b \<noteq> NaN) balances = []"
    by (simp only: length_0_conv)
  then show ?thesis by (auto simp: balanceStats_def)
qed

lemma topBalanceHolders_member:
  assumes "h \<in> set (topBalanceHolders balances)"
  shows "\<exists>b \<in> set balances. resolvedBalance b \<noteq> NaN
          \<and> holder_address h = walletAddress b \<and> balance h = resolvedBalance b"
proof -
  let ?items = "filter (\<lambda>item. \<not> isNaN (balance item))
        (map (\<lambda>b. \<lparr> holder_address = walletAddress b, balance = resolvedBalance b \<rparr>) balances)"
  have "set (topBalanceHolders balances) \<subseteq> set (js_sort (\<lambda>a b. jsub (balance b) (balance a)) ?items)"
    unfolding topBalanceHolders_def by (rule set_take_subset)
  with assms have "h \<in> set ?items" by (auto simp only: set_js_sort)
  then obtain b where "b \<in> set balances"
    and "h = \<lparr> holder_address = walletAddress b, balance = resolvedBalance b \<rparr>"
    and "\<not> isNaN (balance h)" by auto
  then show ?thesis by (auto simp: isNaN_def)
qed

lemmas stats_defs = balanceStats_def balanceValues_def statsOf_def sum_values_def variance_def
  at_or0_def isNaN_def js_sort_def Let_def

subsection \<open>The exchanges of a profile\<close>

lemma annotate_sel:
  "network (annotate n d pos) = n" "dex (annotate n d pos) = d"
  by (simp_all add: annotate_def PoolPosition.defs AddressPoolPosition.defs)

lemma dexPositions_pairs:
  "(\<lambda>pos. (network pos, dex pos)) ` set (dexPositions n d) =
     (case snd d of None \<Rightarrow> {} | Some raw \<Rightarrow> (if list_ex survives raw then {(n, fst d)} else {}))"
  by (cases "snd d")
    (auto simp: dexPositions_def annotate_sel survives_def list_ex_iff image_iff)

lemma networkPositions_pairs:
  "(\<lambda>pos. (network pos, dex pos)) ` set (networkPositions n) =
     (case snd n of None \<Rightarrow> {}
      | Some ds \<Rightarrow> (\<Union>d \<in> set ds. case snd d of None \<Rightarrow> {}
          | Some raw \<Rightarrow> (if list_ex survives raw then {(fst n, fst d)} else {})))"
  by (cases "snd n") (simp_all add: networkPositions_def image_UN dexPositions_pairs)

lemma walletPositions_pairs:
  "(\<lambda>pos. (network pos, dex pos)) ` set (walletPositions networks) = set (surviving_pairs networks)"
proof -
  have inner: "set (case snd d of None \<Rightarrow> []
        | Some raw \<Rightarrow> (if list_ex survives raw then [(n, fst d)] else [])) =
      (case snd d of None \<Rightarrow> {}
        | Some raw \<Rightarrow> (if list_ex survives raw then {(n, fst d)} else {}))"
    for n :: string and d :: "string \<times> PoolPosition list option"
    by (cases "snd d") simp_all
  have outer: "set (case snd n of None \<Rightarrow> []
        | Some ds \<Rightarrow> concat (map (\<lambda>d. case snd d of None \<Rightarrow> []
            | Some raw \<Rightarrow> (if list_ex survives raw then [(fst n, fst d)] else [])) ds)) =
      (case snd n of None \<Rightarrow> {}
        | Some ds \<Rightarrow> (\<Union>d \<in> set ds. case snd d of None \<Rightarrow> {}
            | Some raw \<Rightarrow> (if list_ex survives raw then {(fst n, fst d)} else {})))"
    for n :: "string \<times> dexs_object option"
    by (cases "snd n") (simp_all add: inner)
  have "set (surviving_pairs networks) =
      (\<Union>n \<in> set networks. case snd n of None \<Rightarrow> {}
        | Some ds \<Rightarrow> (\<Union>d \<in> set ds. case snd d of None \<Rightarrow> {}
            | Some raw \<Rightarrow> (if list_ex survives raw then {(fst n, fst d)} else {})))"
    by (simp add: surviving_pairs_def outer)
  then show ?thesis
    by (simp add: walletPositions_def image_UN networkPositions_pairs)
qed

text \<open>
  The profile of the store counts the pairs with a surviving position, when no two of them
  have the same key \<open>network-exchange\<close>.
\<close>

lemma dexCount_profile:
  assumes p: "addressPoolProfile w = Some p"
    and inj: "inj_on (\<lambda>nd. dexKey (fst nd) (snd nd)) ((\<lambda>pos. (network pos, dex pos)) ` set (positions p))"
  shows "dexCount p = distinctExchangeCount w"
proof -
  from p obtain networks where n: "sourceBalance w = Some networks"
    and ps: "positions p = walletPositions networks"
    and dc: "dexCount p = length (remdups (map (\<lambda>pos. dexKey (network pos) (dex pos)) (positions p)))"
    by (auto simp: addressPoolProfile_def Let_def split: option.splits if_splits)
  let ?pairs = "(\<lambda>pos. (network pos, dex pos)) ` set (positions p)"
  have "dexCount p = card (set (map (\<lambda>pos. dexKey (network pos) (dex pos)) (positions p)))"
    by (simp only: dc length_remdups_card_conv)
  also have "set (map (\<lambda>pos. dexKey (network pos) (dex pos)) (positions p)) =
      (\<lambda>nd. dexKey (fst nd) (snd nd)) ` ?pairs"
    by (simp add: image_image)
  also have "card \<dots> = card ?pairs" using inj by (rule card_image)
  also have "?pairs = set (surviving_pairs networks)"
    by (simp only: ps walletPositions_pairs)
  also have "card \<dots> = length (surviving_pairs networks)"
    by (simp add: surviving_pairs_def length_remdups_card_conv)
  finally show ?thesis by (simp add: distinctExchangeCount_def n)
qed

subsection \<open>The search across the snapshots\<close>

lemma isCurrent_currentEntry: "isCurrent (currentEntry balances pv a)"
  by (simp add: currentEntry_def entryOf_def)

lemma js_insert_current: "isCurrent x \<Longrightarrow> js_insert compareResults x ys = x # ys"
  by (cases ys) (simp_all add: compareResults_def)

lemma search_unfold:
  assumes "trim searchAddress \<noteq> []"
  shows "searchAddressAcrossSnapshots fmt load balances pv availableSnapshots searchAddress =
     currentEntry balances pv (toLowerCase (trim searchAddress))
       # js_sort compareResults
           (map (snapshotEntry fmt load (toLowerCase (trim searchAddress))) availableSnapshots)"
  using assms
  by (simp add: searchAddressAcrossSnapshots_def Let_def js_sort_Cons js_insert_current
      isCurrent_currentEntry)

lemma snapshotEntry_failed:
  "load s = Inl e \<Longrightarrow> snapshotEntry fmt load a s = notFoundEntry (date s) (fmt (date s))"
  by (simp add: snapshotEntry_def)

lemma snapshotEntry_loaded:
  "load s = Inr (b, p) \<Longrightarrow> b \<noteq> JNull \<Longrightarrow> p \<noteq> JNull \<Longrightarrow>
     snapshotEntry fmt load a s =
       entryOf (date s) (fmt (date s)) False (findBalance a (rowsOf b)) (findPower a (rowsOf p))"
  by (simp add: snapshotEntry_def)

lemmas search_defs = searchAddressAcrossSnapshots_def currentEntry_def snapshotEntry_def
  entryOf_def notFoundEntry_def findBalance_def findPower_def rowsOf_def compareResults_def
  isoDate_def trim_def is_ws_def toLowerCase_def char_of_def bit_0 bit_Suc_0_iff js_sort_def Let_def
  analyzePoolPositions_def snapshot_of_def wallet_with_def

subsection \<open>Counting into bins\<close>

lemma in_bin_count_update: "in_bin v (b \<lparr> bin_count := n \<rparr>) = in_bin v b"
  by (simp add: in_bin_def)

lemma length_countValue: "length (countValue v bs) = length bs"
  by (induction bs) simp_all

lemma countValue_nth:
  assumes "sorted_wrt (\<lambda>b c. \<not> (in_bin v b \<and> in_bin v c)) bs" and "i < length bs"
  shows "countValue v bs ! i =
     (bs ! i) \<lparr> bin_count := bin_count (bs ! i) + (if in_bin v (bs ! i) then 1 else 0) \<rparr>"
  using assms
proof (induction bs arbitrary: i)
  case Nil
  then show ?case by simp
next
  case (Cons b bs)
  show ?case
  proof (cases "in_bin v b")
    case True
    with Cons.prems(1) have "\<forall>c \<in> set bs. \<not> in_bin v c" by simp
    with True Cons.prems(2) show ?thesis by (cases i) simp_all
  next
    case False
    with Cons show ?thesis by (cases i) simp_all
  qed
qed

text \<open>Counting a value changes no bound of a bin, so disjoint bins stay disjoint.\<close>

lemma ranges_countValue:
  "map (\<lambda>b. (bin_min b, bin_max b)) (countValue v bs) = map (\<lambda>b. (bin_min b, bin_max b)) bs"
  by (induction bs) simp_all

lemma disjoint_ranges:
  "sorted_wrt (\<lambda>b c. \<not> (in_bin v b \<and> in_bin v c)) bs \<longleftrightarrow>
   sorted_wrt (\<lambda>r s. \<not> ((jle (fst r) v \<and> jlt v (snd r)) \<and> (jle (fst s) v \<and> jlt v (snd s))))
     (map (\<lambda>b. (bin_min b, bin_max b)) bs)"
  by (simp add: sorted_wrt_map in_bin_def)

lemma disjoint_countValue:
  "sorted_wrt (\<lambda>b c. \<not> (in_bin v b \<and> in_bin v c)) (countValue u bs) \<longleftrightarrow>
   sorted_wrt (\<lambda>b c. \<not> (in_bin v b \<and> in_bin v c)) bs"
  by (simp only: disjoint_ranges ranges_countValue)

lemma foldl_countValue_nth:
  assumes "\<And>v. sorted_wrt (\<lambda>b c. \<not> (in_bin v b \<and> in_bin v c)) bs" and "i < length bs"
  shows "length (foldl (\<lambda>bins v. countValue v bins) bs vs) = length bs
       \<and> foldl (\<lambda>bins v. countValue v bins) bs vs ! i =
           (bs ! i) \<lparr> bin_count := bin_count (bs ! i) + length (filter (\<lambda>v. in_bin v (bs ! i)) vs) \<rparr>"
  using assms
proof (induction vs arbitrary: bs)
  case Nil
  then show ?case by simp
next
  case (Cons v vs)
  let ?bs = "countValue v bs"
  have nth: "?bs ! i = (bs ! i) \<lparr> bin_count := bin_count (bs ! i) + (if in_bin v (bs ! i) then 1 else 0) \<rparr>"
    using Cons.prems(1) [of v] Cons.prems(2) by (rule countValue_nth)
  have len: "length ?bs = length bs" by (rule length_countValue)
  have "length (foldl (\<lambda>bins v. countValue v bins) ?bs vs) = length ?bs
      \<and> foldl (\<lambda>bins v. countValue v bins) ?bs vs ! i =
           (?bs ! i) \<lparr> bin_count := bin_count (?bs ! i) + length (filter (\<lambda>v. in_bin v (?bs ! i)) vs) \<rparr>"
  proof (rule Cons.IH)
    fix u show "sorted_wrt (\<lambda>b c. \<not> (in_bin u b \<and> in_bin u c)) ?bs"
      using Cons.prems(1) [of u] by (simp only: disjoint_countValue)
  next
    show "i < length ?bs" using Cons.prems(2) by (simp only: len)
  qed
  then show ?case
    by (simp add: len nth in_bin_count_update)
qed

lemma disjoint_initialBins: "sorted_wrt (\<lambda>b c. \<not> (in_bin v b \<and> in_bin v c)) initialBins"
  by (cases v) (simp_all add: initialBins_def in_bin_def)

lemma length_filter_sum: "length (filter P xs) = sum_list (map (\<lambda>x. if P x then 1 else 0) xs)"
  by (induction xs) simp_all

lemma double_count:
  "sum_list (map (\<lambda>b. length (filter (\<lambda>v. P v b) vs)) bs) =
   sum_list (map (\<lambda>v. length (filter (P v) bs)) vs)"
proof (induction vs)
  case Nil
  show ?case by simp
next
  case (Cons v vs)
  have "sum_list (map (\<lambda>b. length (filter (\<lambda>v. P v b) (v # vs))) bs) =
      sum_list (map (\<lambda>b. (if P v b then 1 else 0) + length (filter (\<lambda>v. P v b) vs)) bs)"
    by (intro arg_cong [where f = sum_list] map_cong refl) simp
  also have "\<dots> = sum_list (map (\<lambda>b. if P v b then 1 else 0) bs)
      + sum_list (map (\<lambda>b. length (filter (\<lambda>v. P v b) vs)) bs)"
    by (simp add: sum_list_addf)
  finally show ?case by (simp add: Cons.IH length_filter_sum [symmetric])
qed

text \<open>A finite value above 0 lies in one bin, the value Infinity in none.\<close>

lemma bins_holding_finite: "0 < x \<Longrightarrow> length (bins_holding (Fin x)) = 1"
  by (simp add: bins_holding_def initialBins_def in_bin_def)

lemma bins_holding_PInf: "bins_holding PInf = []"
  by (simp add: bins_holding_def initialBins_def in_bin_def)

lemma bins_holding_count:
  "jlt (Fin 0) v \<Longrightarrow> length (bins_holding v) = (if v = PInf then 0 else 1)"
  by (cases v) (simp_all add: bins_holding_finite bins_holding_PInf)

lemma distributionValues_positive: "v \<in> set (distributionValues balances) \<Longrightarrow> jlt (Fin 0) v"
  by (simp add: distributionValues_def)

lemma sum_bins_holding:
  assumes "\<forall>v \<in> set vs. jlt (Fin 0) v"
  shows "sum_list (map (\<lambda>v. length (bins_holding v)) vs) = length (filter (\<lambda>v. v \<noteq> PInf) vs)"
  using assms by (induction vs) (simp_all add: bins_holding_count)

lemma distribution_counts:
  assumes "balanceDistribution balances = Some bins"
  shows "length bins = 6"
    and "map label bins = map label initialBins"
    and "map bin_count bins =
       map (\<lambda>b. length (filter (\<lambda>v. in_bin v b) (distributionValues balances))) initialBins"
proof -
  let ?vs = "distributionValues balances"
  from assms have bins: "bins = foldl (\<lambda>bins v. countValue v bins) initialBins ?vs"
    by (auto simp: balanceDistribution_def split: if_splits)
  have six: "length initialBins = 6" by (simp add: initialBins_def)
  note f = foldl_countValue_nth [OF disjoint_initialBins, of _ ?vs, folded bins]
  from f [of 0] six show len: "length bins = 6" by simp
  have zero: "bin_count (initialBins ! i) = 0" if "i < 6" for i
  proof -
    from that have "i \<in> {0, 1, 2, 3, 4, 5}" by auto
    then show ?thesis by (auto simp: initialBins_def)
  qed
  show "map label bins = map label initialBins"
    by (rule nth_equalityI) (simp_all add: len six f)
  show "map bin_count bins =
       map (\<lambda>b. length (filter (\<lambda>v. in_bin v b) ?vs)) initialBins"
    by (rule nth_equalityI) (simp_all add: len six f zero)
qed

lemma distribution_total:
  assumes "balanceDistribution balances = Some bins"
  shows "sum_list (map bin_count bins) =
     length (filter (\<lambda>v. v \<noteq> PInf) (distributionValues balances))"
proof -
  have "sum_list (map bin_count bins) =
      sum_list (map (\<lambda>v. length (bins_holding v)) (distributionValues balances))"
    unfolding distribution_counts(3) [OF assms] bins_holding_def by (rule double_count)
  also have "\<dots> = length (filter (\<lambda>v. v \<noteq> PInf) (distributionValues balances))"
    by (rule sum_bins_holding) (simp add: distributionValues_positive)
  finally show ?thesis .
qed

text \<open>The same over the rows of the input: the values that are binned are the resolved
  amounts above 0, and the bins keep the bounds of the six ranges.\<close>

lemma distributionValues_rows:
  "distributionValues balances = filter (\<lambda>v. jlt (Fin 0) v) (map resolvedBalance balances)"
proof -
  have "(\<not> isNaN v \<and> jlt (Fin 0) v) = jlt (Fin 0) v" for v
    by (cases v) (simp_all add: isNaN_def)
  then show ?thesis by (simp add: distributionValues_def)
qed

lemma count_rows:
  "length (filter P (filter Q (map f xs))) = length (filter (\<lambda>x. Q (f x) \<and> P (f x)) xs)"
  by (induction xs) simp_all

lemma ranges_foldl_countValue:
  "map (\<lambda>b. (bin_min b, bin_max b)) (foldl (\<lambda>bins v. countValue v bins) bs vs) =
   map (\<lambda>b. (bin_min b, bin_max b)) bs"
  by (induction vs arbitrary: bs) (simp_all add: ranges_countValue)

lemma ranges_initialBins: "map (\<lambda>b. (bin_min b, bin_max b)) initialBins = distributionRanges"
  by (simp add: initialBins_def distributionRanges_def)

lemma distribution_ranges:
  assumes "balanceDistribution balances = Some bins"
  shows "map (\<lambda>b. (bin_min b, bin_max b)) bins = distributionRanges"
proof -
  from assms have "bins = foldl (\<lambda>bins v. countValue v bins) initialBins (distributionValues balances)"
    by (auto simp: balanceDistribution_def split: if_splits)
  then show ?thesis by (simp only: ranges_foldl_countValue ranges_initialBins)
qed

lemma distribution_row_counts:
  assumes "balanceDistribution balances = Some bins"
  shows "map bin_count bins =
     map (\<lambda>r. length (filter (\<lambda>b. jlt (Fin 0) (resolvedBalance b) \<and> in_range (resolvedBalance b) r)
                  balances)) distributionRanges"
proof -
  let ?n = "\<lambda>r. length (filter (\<lambda>v. in_range v r) (distributionValues balances))"
  have "map bin_count bins =
      map (\<lambda>b. length (filter (\<lambda>v. in_bin v b) (distributionValues balances))) initialBins"
    by (rule distribution_counts(3) [OF assms])
  also have "\<dots> = map (\<lambda>b. ?n (bin_min b, bin_max b)) initialBins"
    by (simp add: in_bin_def in_range_def)
  also have "\<dots> = map ?n (map (\<lambda>b. (bin_min b, bin_max b)) initialBins)"
    by (simp add: comp_def)
  also have "\<dots> = map ?n distributionRanges"
    by (simp only: ranges_initialBins)
  finally show ?thesis
    by (simp add: distributionValues_rows count_rows comp_def)
qed

lemma distribution_row_total:
  assumes "balanceDistribution balances = Some bins"
  shows "sum_list (map bin_count bins) =
     length (filter (\<lambda>b. finite_positive (resolvedBalance b)) balances)"
proof -
  have "(jlt (Fin 0) v \<and> v \<noteq> PInf) = finite_positive v" for v
    by (cases v) (simp_all add: finite_positive_def)
  then show ?thesis
    by (simp add: distribution_total [OF assms] distributionValues_rows count_rows comp_def)
qed

lemma distribution_None_iff:
  "balanceDistribution balances = None \<longleftrightarrow>
     (\<forall>b \<in> set balances. \<not> jlt (Fin 0) (resolvedBalance b))"
  by (auto simp: balanceDistribution_def distributionValues_rows filter_empty_conv)

lemma ranges_holding_finite: "0 < x \<Longrightarrow> length (ranges_holding (Fin x)) = 1"
  by (simp add: ranges_holding_def distributionRanges_def in_range_def)

lemma ranges_holding_PInf: "ranges_holding PInf = []"
  by (simp add: ranges_holding_def distributionRanges_def in_range_def)

subsection \<open>The standard deviation\<close>

lemma stdDev_statsOf: "stdDev (statsOf values) = Math_sqrt (variance values)"
  by (simp add: statsOf_def Let_def)

lemma mean_statsOf:
  "mean (statsOf values) = jdiv (sum_values values) (Fin (real (length values)))"
  by (simp add: statsOf_def Let_def)

lemma jmul_Fin: "jmul (Fin x) (Fin y) = fl (x * y)"
  by (simp add: jmul_def)

lemma jdiv_Fin: "y \<noteq> 0 \<Longrightarrow> jdiv (Fin x) (Fin y) = fl (x / y)"
  by (simp add: jdiv_def)

lemma int_abs_le_square: "\<bar>d\<bar> \<le> d ^ 2" for d :: int
proof (cases "d = 0")
  case True
  then show ?thesis by simp
next
  case False
  then have "1 \<le> \<bar>d\<bar>" by simp
  then have "\<bar>d\<bar> * 1 \<le> \<bar>d\<bar> * \<bar>d\<bar>" by (intro mult_left_mono) simp_all
  then show ?thesis by (simp add: power2_eq_square abs_mult_self_eq)
qed

text \<open>Sums of whole numbers are exact as long as they stay within 53 bits.\<close>

lemma foldl_jadd_int:
  assumes "\<bar>a\<bar> + sum_list (map abs ks) \<le> 2 ^ 53"
  shows "foldl (\<lambda>sum val. jadd sum val) (Fin (of_int a)) (map (\<lambda>k. Fin (of_int k)) ks) =
     Fin (of_int (a + sum_list ks))"
  using assms
proof (induction ks arbitrary: a)
  case Nil
  then show ?case by simp
next
  case (Cons k ks)
  from Cons.prems have p: "\<bar>a\<bar> + (\<bar>k\<bar> + sum_list (map abs ks)) \<le> 2 ^ 53" by simp
  have "\<bar>a + k\<bar> \<le> \<bar>a\<bar> + \<bar>k\<bar>" by (rule abs_triangle_ineq)
  with p have b: "\<bar>a + k\<bar> + sum_list (map abs ks) \<le> 2 ^ 53" by linarith
  have nn: "0 \<le> sum_list (map abs ks)" by (rule sum_list_nonneg) auto
  with b have "\<bar>a + k\<bar> \<le> 2 ^ 53" by linarith
  then have j: "jadd (Fin (of_int a)) (Fin (of_int k)) = Fin (of_int (a + k))"
    using fl_of_int [of "a + k"] by (simp add: jadd_Fin)
  have "foldl (\<lambda>sum val. jadd sum val) (Fin (of_int a)) (map (\<lambda>k. Fin (of_int k)) (k # ks)) =
      foldl (\<lambda>sum val. jadd sum val) (jadd (Fin (of_int a)) (Fin (of_int k)))
        (map (\<lambda>k. Fin (of_int k)) ks)"
    by simp
  also have "\<dots> = foldl (\<lambda>sum val. jadd sum val) (Fin (of_int (a + k))) (map (\<lambda>k. Fin (of_int k)) ks)"
    by (simp only: j)
  also have "\<dots> = Fin (of_int (a + k + sum_list ks))"
    by (rule Cons.IH [OF b])
  finally show ?case by (simp add: add.assoc)
qed

lemma foldl_squares_int:
  assumes "\<bar>a\<bar> + sum_list (map (\<lambda>k. (k - m) ^ 2) ks) \<le> 2 ^ 53"
  shows "foldl (\<lambda>sum val. jadd sum (Math_pow2 (jsub val (Fin (of_int m))))) (Fin (of_int a))
       (map (\<lambda>k. Fin (of_int k)) ks) =
     Fin (of_int (a + sum_list (map (\<lambda>k. (k - m) ^ 2) ks)))"
  using assms
proof (induction ks arbitrary: a)
  case Nil
  then show ?case by simp
next
  case (Cons k ks)
  let ?q = "(k - m) ^ 2"
  have nn: "0 \<le> sum_list (map (\<lambda>k. (k - m) ^ 2) ks)" by (rule sum_list_nonneg) auto
  have q0: "0 \<le> ?q" by simp
  from Cons.prems nn have q: "?q \<le> 2 ^ 53" by simp
  have "\<bar>k - m\<bar> \<le> ?q" by (rule int_abs_le_square)
  with q have d: "\<bar>k - m\<bar> \<le> 2 ^ 53" by linarith
  have sub: "jsub (Fin (of_int k)) (Fin (of_int m)) = Fin (of_int (k - m))"
    using fl_of_int [OF d] by (simp add: jsub_Fin)
  have "\<bar>?q\<bar> \<le> 2 ^ 53" using q q0 by simp
  then have sq: "Math_pow2 (Fin (of_int (k - m))) = Fin (of_int ?q)"
    using fl_of_int [of ?q] by (simp add: Math_pow2_def jmul_Fin power2_eq_square)
  from Cons.prems have p: "\<bar>a\<bar> + (?q + sum_list (map (\<lambda>k. (k - m) ^ 2) ks)) \<le> 2 ^ 53"
    by simp
  have "\<bar>a + ?q\<bar> \<le> \<bar>a\<bar> + ?q" using q0 by linarith
  with p have b: "\<bar>a + ?q\<bar> + sum_list (map (\<lambda>k. (k - m) ^ 2) ks) \<le> 2 ^ 53"
    by linarith
  with nn have "\<bar>a + ?q\<bar> \<le> 2 ^ 53" by linarith
  then have j: "jadd (Fin (of_int a)) (Fin (of_int ?q)) = Fin (of_int (a + ?q))"
    using fl_of_int [of "a + ?q"] by (simp add: jadd_Fin)
  let ?f = "\<lambda>sum val. jadd sum (Math_pow2 (jsub val (Fin (of_int m))))"
  have "foldl ?f (Fin (of_int a)) (map (\<lambda>k. Fin (of_int k)) (k # ks)) =
      foldl ?f (jadd (Fin (of_int a)) (Math_pow2 (jsub (Fin (of_int k)) (Fin (of_int m)))))
        (map (\<lambda>k. Fin (of_int k)) ks)"
    by simp
  also have "\<dots> = foldl ?f (Fin (of_int (a + ?q))) (map (\<lambda>k. Fin (of_int k)) ks)"
    by (simp only: sub sq j)
  also have "\<dots> = Fin (of_int (a + ?q + sum_list (map (\<lambda>k. (k - m) ^ 2) ks)))"
    by (rule Cons.IH [OF b])
  finally show ?case by (simp add: add.assoc)
qed

text \<open>
  For a sample of whole numbers whose sums stay within 53 bits and whose mean is whole, the
  only roundings are those of the last division and of the square root: the standard
  deviation is the rounded square root of the rounded population variance.
\<close>

lemma sum_list_of_int: "sum_list (map real_of_int ks) = real_of_int (sum_list ks)"
  by (induction ks) simp_all

lemma sum_squares_of_int:
  "(\<Sum>x\<leftarrow>map real_of_int ks. (x - real_of_int m) ^ 2) = real_of_int (\<Sum>k\<leftarrow>ks. (k - m) ^ 2)"
  by (induction ks) simp_all

lemma stdDev_whole_numbers:
  assumes ne: "ks \<noteq> []"
    and sums: "sum_list (map abs ks) \<le> 2 ^ 53"
    and whole: "int (length ks) dvd sum_list ks"
    and squares: "sum_list (map (\<lambda>k. (k - sum_list ks div int (length ks)) ^ 2) ks) \<le> 2 ^ 53"
  shows "stdDev (statsOf (map (\<lambda>k. Fin (of_int k)) ks)) =
     Math_sqrt (fl (population_variance (map of_int ks)))"
proof -
  let ?vals = "map (\<lambda>k. Fin (of_int k)) ks"
  let ?n = "length ks"
  let ?S = "sum_list ks"
  let ?m = "?S div int ?n"
  let ?Q = "sum_list (map (\<lambda>k. (k - ?m) ^ 2) ks)"
  from ne have n: "0 < ?n" by simp
  then have rn: "real ?n \<noteq> 0" by simp
  have total: "sum_values ?vals = Fin (of_int ?S)"
    unfolding sum_values_def using foldl_jadd_int [of 0 ks] sums by simp
  from whole have S: "?S = ?m * int ?n" by simp
  have "real_of_int ?S = real_of_int ?m * real ?n"
    by (subst S) simp
  then have quot: "real_of_int ?S / real ?n = real_of_int ?m" using rn by simp
  have "\<bar>?S\<bar> \<le> sum_list (map abs ks)" by (rule sum_list_abs)
  moreover have "\<bar>?m\<bar> \<le> \<bar>?S\<bar>"
  proof -
    have "\<bar>?S\<bar> = \<bar>?m\<bar> * int ?n" by (subst S) (simp add: abs_mult)
    moreover have "1 \<le> int ?n" using n by linarith
    then have "\<bar>?m\<bar> * 1 \<le> \<bar>?m\<bar> * int ?n" by (intro mult_left_mono) simp_all
    ultimately show ?thesis by simp
  qed
  ultimately have "\<bar>?m\<bar> \<le> 2 ^ 53" using sums by linarith
  then have mean: "jdiv (sum_values ?vals) (Fin (real (length ?vals))) = Fin (of_int ?m)"
    using rn by (simp add: total jdiv_Fin quot fl_of_int)
  have "foldl (\<lambda>sum val. jadd sum (Math_pow2 (jsub val (Fin (of_int ?m))))) (Fin (of_int 0)) ?vals =
      Fin (of_int (0 + ?Q))"
    by (rule foldl_squares_int) (use squares in simp)
  then have var: "variance ?vals = fl (real_of_int ?Q / real ?n)"
    unfolding variance_def Let_def mean using rn by (simp add: jdiv_Fin)
  have "population_variance (map real_of_int ks) = real_of_int ?Q / real ?n"
    unfolding population_variance_def Let_def sum_list_of_int length_map quot sum_squares_of_int ..
  with var show ?thesis by (simp add: stdDev_statsOf)
qed

lemma stdDev_single:
  assumes "binary64 v"
  shows "stdDev (statsOf [Fin v]) = Fin 0"
proof -
  from assms have v: "fl v = Fin v" by (simp add: binary64_def)
  have "sum_values [Fin v] = Fin v" by (simp add: sum_values_def jadd_Fin v)
  then have "variance [Fin v] = Fin 0"
    by (simp add: variance_def Let_def jdiv_Fin v jsub_Fin jadd_Fin fl_zero Math_pow2_def jmul_Fin)
  then show ?thesis by (simp add: stdDev_statsOf Math_sqrt_def fl_zero)
qed

lemma sqrt_100: "sqrt 100 = 10"
  by (rule real_sqrt_unique) simp_all

lemma stdDev_10_30: "stdDev (statsOf [Fin 10, Fin 30]) = Fin 10"
proof -
  have "stdDev (statsOf (map (\<lambda>k. Fin (of_int k)) [10, 30])) =
      Math_sqrt (fl (population_variance (map of_int [10, 30])))"
    by (rule stdDev_whole_numbers) simp_all
  then show ?thesis
    by (simp add: population_variance_def fl_numeral Math_sqrt_def sqrt_100)
qed

subsection \<open>The direct share of a wallet\<close>

lemma amounts_dexPositions:
  "map regAmount (dexPositions n d) = (case snd d of
      None \<Rightarrow> []
    | Some raw \<Rightarrow> filter (\<lambda>a. \<not> jle a (Fin 0)) (map regAmountOf raw))"
  by (simp add: dexPositions_def regAmount_annotate filter_map comp_def split: option.splits)

lemma amounts_networkPositions:
  "map regAmount (networkPositions n) = (case snd n of
      None \<Rightarrow> []
    | Some ds \<Rightarrow>
        concat (map (\<lambda>d. case snd d of
            None \<Rightarrow> []
          | Some raw \<Rightarrow> filter (\<lambda>a. \<not> jle a (Fin 0)) (map regAmountOf raw)) ds))"
  by (simp add: networkPositions_def map_concat comp_def amounts_dexPositions split: option.splits)

lemma amounts_walletPositions:
  "sourceBalance w = Some networks \<Longrightarrow> map regAmount (walletPositions networks) = keptAmounts w"
  by (simp add: walletPositions_def keptAmounts_def map_concat comp_def amounts_networkPositions)

lemma addressPoolProfile_amounts:
  assumes "addressPoolProfile w = Some p"
  shows "walletREG p = walletTotal w" and "poolLiquidityREG p = walletLiquidity w"
proof -
  from assms obtain networks where n: "sourceBalance w = Some networks"
    and p: "walletREG p = or0 (resolvedBalance w)"
      "poolLiquidityREG p =
         foldl (\<lambda>sum pos. jadd sum (regAmount pos)) (Fin 0) (walletPositions networks)"
    by (auto simp: addressPoolProfile_def Let_def split: option.splits if_splits)
  from p(1) show "walletREG p = walletTotal w" by (simp add: walletTotal_def)
  from p(2) have "poolLiquidityREG p =
      foldl jadd (Fin 0) (map regAmount (walletPositions networks))"
    by (simp add: foldl_map)
  then show "poolLiquidityREG p = walletLiquidity w"
    by (simp only: amounts_walletPositions [OF n] walletLiquidity_def)
qed

text \<open>The total is never NaN; the liquidity is NaN or not below 0.\<close>

lemma walletTotal_not_NaN: "walletTotal w \<noteq> NaN"
  by (simp add: walletTotal_def or0_def)

lemma jadd_kept:
  assumes "acc = NaN \<or> jle (Fin 0) acc" and "\<not> jle a (Fin 0)"
  shows "jadd acc a = NaN \<or> jle (Fin 0) (jadd acc a)"
proof (cases acc)
  case (Fin x)
  with assms(1) have x: "0 \<le> x" by simp
  show ?thesis
  proof (cases a)
    case (Fin y)
    with assms(2) have "0 \<le> x + y" using x by simp
    from fl_nonneg [OF this] show ?thesis using \<open>acc = Fin x\<close> Fin by (simp add: jadd_Fin)
  qed (use Fin assms(2) in \<open>simp_all add: jadd_def\<close>)
next
  case PInf
  with assms(2) show ?thesis by (cases a) (simp_all add: jadd_def)
qed (use assms(1) in \<open>simp_all add: jadd_def\<close>)

lemma foldl_jadd_kept:
  assumes "acc = NaN \<or> jle (Fin 0) acc" and "\<forall>a \<in> set as. \<not> jle a (Fin 0)"
  shows "foldl jadd acc as = NaN \<or> jle (Fin 0) (foldl jadd acc as)"
  using assms
proof (induction as arbitrary: acc)
  case Nil
  then show ?case by simp
next
  case (Cons a as)
  have "jadd acc a = NaN \<or> jle (Fin 0) (jadd acc a)"
    using Cons.prems by (intro jadd_kept) simp_all
  then show ?case using Cons.prems(2) by (simp add: Cons.IH)
qed

lemma keptAmounts_kept: "a \<in> set (keptAmounts w) \<Longrightarrow> \<not> jle a (Fin 0)"
  by (auto simp: keptAmounts_def split: option.splits)

lemma walletLiquidity_cases: "walletLiquidity w = NaN \<or> jle (Fin 0) (walletLiquidity w)"
  unfolding walletLiquidity_def
  by (rule foldl_jadd_kept) (simp_all add: keptAmounts_kept)

lemma direct_share_cases:
  assumes t: "t \<noteq> NaN" and l: "l = NaN \<or> jle (Fin 0) l"
  shows "Math_max (jsub t l) (Fin 0) = NaN \<longleftrightarrow> l = NaN \<or> (t = PInf \<and> l = PInf)"
    and "Math_max (jsub t l) (Fin 0) \<noteq> NaN \<Longrightarrow> jle (Fin 0) (Math_max (jsub t l) (Fin 0))"
    and "jlt t l \<Longrightarrow> Math_max (jsub t l) (Fin 0) = Fin 0"
    and "t = Fin x \<Longrightarrow> l = Fin y \<Longrightarrow> Math_max (jsub t l) (Fin 0) = fl (max (x - y) 0)"
proof -
  have fin: "Math_max (jsub (Fin a) (Fin b)) (Fin 0) = fl (max (a - b) 0)" for a b
    by (simp add: jsub_Fin Math_max_fl_0 max_def fl_zero)
  have nn: "jle (Fin 0) (fl (max (a - b) 0))" for a b :: real
    by (rule fl_nonneg) simp
  show "Math_max (jsub t l) (Fin 0) = NaN \<longleftrightarrow> l = NaN \<or> (t = PInf \<and> l = PInf)"
    using t l by (cases t; cases l) (simp_all add: fin fl_not_NaN, simp_all add: jsub_def Math_max_def)
  show "jle (Fin 0) (Math_max (jsub t l) (Fin 0))" if "Math_max (jsub t l) (Fin 0) \<noteq> NaN"
    using t l that by (cases t; cases l) (simp_all add: fin nn, simp_all add: jsub_def Math_max_def)
  show "Math_max (jsub t l) (Fin 0) = Fin 0" if "jlt t l"
    using t l that by (cases t; cases l) (simp_all add: fin fl_zero, simp_all add: jsub_def Math_max_def)
  show "Math_max (jsub t l) (Fin 0) = fl (max (x - y) 0)" if "t = Fin x" "l = Fin y"
    using that by (simp add: fin)
qed

text \<open>Before they are sorted, the rows of the correlation are those of the input, in its order.\<close>

lemma correlated_rows:
  "map (\<lambda>c. (profile_address c, walletREG c, poolLiquidityREG c, walletDirectREG c))
     (filter (\<lambda>item. jlt (Fin 0) (corr_powerVoting item))
       (map (correlate pm) (addressPoolProfiles balances))) =
   map (\<lambda>w. (walletAddress w, walletTotal w, walletLiquidity w,
              Math_max (jsub (walletTotal w) (walletLiquidity w)) (Fin 0)))
     (filter (\<lambda>w. has_surviving_position w \<and> jlt (Fin 0) (powerValueOf pm (walletAddress w)))
       balances)"
proof (induction balances)
  case Nil
  show ?case by (simp add: addressPoolProfiles_def List.map_filter_simps)
next
  case (Cons w balances)
  show ?case
  proof (cases "addressPoolProfile w")
    case None
    then have "\<not> has_surviving_position w" by (simp add: addressPoolProfile_None_iff)
    with None Cons.IH show ?thesis
      by (simp add: addressPoolProfiles_def List.map_filter_simps)
  next
    case (Some p)
    then have "has_surviving_position w"
      using addressPoolProfile_None_iff [of w] by simp
    moreover from Some have "profile_address p = walletAddress w"
      by (rule addressPoolProfile_address)
    moreover note addressPoolProfile_amounts [OF Some]
    ultimately show ?thesis using Some Cons.IH
      by (simp add: addressPoolProfiles_def List.map_filter_simps correlate_sel)
  qed
qed

lemma correlation_row:
  assumes "c \<in> set (poolPowerCorrelation balances pv)"
  shows "\<exists>w \<in> set balances. walletREG c = walletTotal w \<and> poolLiquidityREG c = walletLiquidity w
     \<and> walletDirectREG c = Math_max (jsub (walletTotal w) (walletLiquidity w)) (Fin 0)"
proof -
  let ?row = "\<lambda>c. (profile_address c, walletREG c, poolLiquidityREG c, walletDirectREG c)"
  from assms have "?row c \<in> set (map ?row
      (filter (\<lambda>item. jlt (Fin 0) (corr_powerVoting item))
        (map (correlate (powerMap pv)) (addressPoolProfiles balances))))"
    unfolding poolPowerCorrelation_unfold set_js_sort set_map by (rule imageI)
  then show ?thesis unfolding correlated_rows by auto
qed

section \<open>The claims\<close>

text \<open>
  C1, as the code has it.  When the power and the direct share of a wallet are finite,
  \<open>walletVotingShare\<close> is the smaller of the two, and \<open>poolVotingShare\<close> is 0 when the power
  does not exceed the direct share, else the difference \<open>power - walletDirectREG\<close> rounded
  to binary64.  The two shares add up to the power exactly if and only if the power does
  not exceed the direct share or the difference is a binary64 value (nothing is lost by
  rounding it); and when they do, the sum that JavaScript computes is the power as well.
\<close>

theorem C1_shares:
  assumes "corr_powerVoting (correlate pm profile) = Fin p"
    and "walletDirectREG (correlate pm profile) = Fin d"
  shows "walletVotingShare (correlate pm profile) = Fin (min p d)
       \<and> poolVotingShare (correlate pm profile) = (if p \<le> d then Fin 0 else fl (p - d))
       \<and> (shares_cover_power (correlate pm profile) \<longleftrightarrow> p \<le> d \<or> binary64 (p - d))
       \<and> (binary64 p \<and> shares_cover_power (correlate pm profile) \<longrightarrow>
            shares_sum (correlate pm profile) = Fin p)"
proof -
  let ?c = "correlate pm profile"
  from assms have pv: "powerValueOf pm (profile_address profile) = Fin p"
    and wd: "Math_max (jsub (walletREG profile) (poolLiquidityREG profile)) (Fin 0) = Fin d"
    by (simp_all add: correlate_sel)
  have ws: "walletVotingShare ?c = Fin (min p d)"
    by (auto simp: correlate_sel pv wd Math_min_def min_def)
  have ps: "poolVotingShare ?c = (if p \<le> d then Fin 0 else fl (p - d))"
    unfolding correlate_sel pv wd by (simp add: jsub_Fin Math_max_fl_0)
  have "shares_cover_power ?c \<longleftrightarrow> p \<le> d \<or> binary64 (p - d)"
  proof (cases "p \<le> d")
    case True
    then show ?thesis by (simp add: shares_cover_power_def ws ps assms min_def)
  next
    case False
    then show ?thesis
      by (cases "fl (p - d)") (auto simp: shares_cover_power_def ws ps assms min_def binary64_def)
  qed
  moreover have "binary64 p \<and> shares_cover_power ?c \<longrightarrow> shares_sum ?c = Fin p"
    by (auto simp: shares_cover_power_def shares_sum_def jadd_Fin binary64_def assms
        split: jsnum.splits)
  ultimately show ?thesis using ws ps by simp
qed

theorem C1_shares_witness:
  "map corr_powerVoting (poolPowerCorrelation [scenario_b_wallet] scenario_b_power) = [Fin 2000]
   \<and> map walletDirectREG (poolPowerCorrelation [scenario_b_wallet] scenario_b_power) = [Fin 0]
   \<and> map walletVotingShare (poolPowerCorrelation [scenario_b_wallet] scenario_b_power) = [Fin 0]
   \<and> map poolVotingShare (poolPowerCorrelation [scenario_b_wallet] scenario_b_power) = [Fin 2000]
   \<and> map shares_cover_power (poolPowerCorrelation [scenario_b_wallet] scenario_b_power) = [True]
   \<and> map shares_sum (poolPowerCorrelation [scenario_b_wallet] scenario_b_power) = [Fin 2000]"
proof -
  obtain pm p where c: "poolPowerCorrelation [scenario_b_wallet] scenario_b_power = [correlate pm p]"
    and pv: "corr_powerVoting (correlate pm p) = Fin 2000"
    and wd: "walletDirectREG (correlate pm p) = Fin 0"
    by (simp add: scenario_b_wallet_def scenario_b_power_def poolPowerCorrelation_def
        js_sort_def powerMap_def toLowerCase_def char_of_def bit_0 bit_Suc_0_iff correlate_sel powerValueOf_def
        powerMap_get_def Math_max_def profile_defs parse_defs fl_evals)
  from C1_shares [OF pv wd] show ?thesis
    by (simp add: c pv wd fl_evals binary64_numeral)
qed

text \<open>
  The claim as it is written fails.  A wallet of 1 REG with 0.4 REG in a pool and a power
  of 1.7 has the direct share \<open>1 - 0.4\<close> (printed \<open>0.6\<close>) and the pool share \<open>1.7 - 0.6\<close>
  (printed \<open>1.1\<close>); the two shares do not add up to the power, neither as real numbers nor
  as JavaScript adds them (\<open>1.7000000000000002\<close>, one unit in the last place above the power).
\<close>

theorem C1_counterexample:
  "map corr_powerVoting (poolPowerCorrelation [c1_decimal_wallet] c1_decimal_power)
     = [Fin (7656119366529843 / 4503599627370496)]
   \<and> map walletDirectREG (poolPowerCorrelation [c1_decimal_wallet] c1_decimal_power)
     = [Fin (5404319552844595 / 9007199254740992)]
   \<and> map walletVotingShare (poolPowerCorrelation [c1_decimal_wallet] c1_decimal_power)
     = [Fin (5404319552844595 / 9007199254740992)]
   \<and> map poolVotingShare (poolPowerCorrelation [c1_decimal_wallet] c1_decimal_power)
     = [Fin (2476979795053773 / 2251799813685248)]
   \<and> map shares_cover_power (poolPowerCorrelation [c1_decimal_wallet] c1_decimal_power) = [False]
   \<and> map shares_sum (poolPowerCorrelation [c1_decimal_wallet] c1_decimal_power)
     = [Fin (1914029841632461 / 1125899906842624)]"
  by (simp add: c1_decimal_wallet_def c1_decimal_power_def correlation_defs profile_defs
      parse_defs fl_evals decimal_evals shares_cover_power_def shares_sum_def)

text \<open>
  The same with whole numbers beyond \<open>2 ^ 53\<close>: with a power of \<open>2 ^ 53 + 2\<close> and a direct
  share of 1 the pool share is \<open>2 ^ 53\<close>, and the shares miss the power by 1.
\<close>

lemma shares_beyond_2p53:
  "map corr_powerVoting (poolPowerCorrelation [c1_wallet] c1_power) = [Fin 9007199254740994]
   \<and> map walletDirectREG (poolPowerCorrelation [c1_wallet] c1_power) = [Fin 1]
   \<and> map walletVotingShare (poolPowerCorrelation [c1_wallet] c1_power) = [Fin 1]
   \<and> map poolVotingShare (poolPowerCorrelation [c1_wallet] c1_power) = [Fin 9007199254740992]
   \<and> map shares_cover_power (poolPowerCorrelation [c1_wallet] c1_power) = [False]
   \<and> map shares_sum (poolPowerCorrelation [c1_wallet] c1_power) = [Fin 9007199254740992]"
  by (simp add: c1_wallet_def c1_power_def correlation_defs profile_defs parse_defs fl_evals
      fl_2p53_plus1 shares_cover_power_def shares_sum_def)

text \<open>
  C2, as the code has it, over the rows of the input.  The wallets of \<open>poolPowerCorrelation\<close>
  are the wallets of the input with a kept position and a power above 0, each with the total
  and the pool liquidity read from its row and with the direct share
  \<open>Math.max(walletREG - poolLiquidityREG, 0)\<close>.  The direct share is NaN exactly when the
  liquidity is NaN or both amounts are Infinity; otherwise it is not below 0.  It is 0
  whenever the liquidity exceeds the total.  For finite amounts it is the real number
  \<open>max (total - liquidity) 0\<close> rounded to binary64, which is that number itself exactly when
  the liquidity is not below the total or the difference is a binary64 value.
\<close>

theorem C2_walletDirectREG:
  "mset (map (\<lambda>c. (profile_address c, walletREG c, poolLiquidityREG c, walletDirectREG c))
          (poolPowerCorrelation balances pv)) =
     mset (map (\<lambda>w. (walletAddress w, walletTotal w, walletLiquidity w,
                      Math_max (jsub (walletTotal w) (walletLiquidity w)) (Fin 0)))
       (filter (\<lambda>w. has_surviving_position w
                   \<and> jlt (Fin 0) (powerValueOf (powerMap pv) (walletAddress w))) balances))
   \<and> (\<forall>c \<in> set (poolPowerCorrelation balances pv).
         walletDirectREG c = Math_max (jsub (walletREG c) (poolLiquidityREG c)) (Fin 0)
       \<and> (walletDirectREG c = NaN \<longleftrightarrow>
            poolLiquidityREG c = NaN \<or> (walletREG c = PInf \<and> poolLiquidityREG c = PInf))
       \<and> (direct_share_nonnegative c \<longleftrightarrow> walletDirectREG c \<noteq> NaN)
       \<and> (jlt (walletREG c) (poolLiquidityREG c) \<longrightarrow> walletDirectREG c = Fin 0)
       \<and> (\<forall>t l. walletREG c = Fin t \<and> poolLiquidityREG c = Fin l \<longrightarrow>
             walletDirectREG c = fl (max (t - l) 0)
           \<and> (direct_share_exact c \<longleftrightarrow> t \<le> l \<or> binary64 (t - l))))"
proof (intro conjI ballI)
  let ?row = "\<lambda>c. (profile_address c, walletREG c, poolLiquidityREG c, walletDirectREG c)"
  let ?kept = "filter (\<lambda>item. jlt (Fin 0) (corr_powerVoting item))
                 (map (correlate (powerMap pv)) (addressPoolProfiles balances))"
  let ?cmp = "\<lambda>a b. jsub (poolLiquidityREG b) (poolLiquidityREG a)"
  have "mset (map ?row (js_sort ?cmp ?kept)) = mset (map ?row ?kept)"
    by (simp only: mset_map mset_js_sort)
  then show "mset (map ?row (poolPowerCorrelation balances pv)) =
     mset (map (\<lambda>w. (walletAddress w, walletTotal w, walletLiquidity w,
                      Math_max (jsub (walletTotal w) (walletLiquidity w)) (Fin 0)))
       (filter (\<lambda>w. has_surviving_position w
                   \<and> jlt (Fin 0) (powerValueOf (powerMap pv) (walletAddress w))) balances))"
    by (simp only: poolPowerCorrelation_unfold correlated_rows)
next
  fix c assume "c \<in> set (poolPowerCorrelation balances pv)"
  from correlation_row [OF this] obtain w
    where t: "walletREG c = walletTotal w" and l: "poolLiquidityREG c = walletLiquidity w"
      and d: "walletDirectREG c = Math_max (jsub (walletTotal w) (walletLiquidity w)) (Fin 0)"
    by blast
  have tn: "walletREG c \<noteq> NaN"
    using walletTotal_not_NaN [of w] by (simp add: t)
  have ln: "poolLiquidityREG c = NaN \<or> jle (Fin 0) (poolLiquidityREG c)"
    using walletLiquidity_cases [of w] by (simp add: l)
  show dd: "walletDirectREG c = Math_max (jsub (walletREG c) (poolLiquidityREG c)) (Fin 0)"
    by (simp only: t l d)
  note cases = direct_share_cases [OF tn ln, folded dd]
  show "walletDirectREG c = NaN \<longleftrightarrow>
      poolLiquidityREG c = NaN \<or> (walletREG c = PInf \<and> poolLiquidityREG c = PInf)"
    by (rule cases(1))
  show "direct_share_nonnegative c \<longleftrightarrow> walletDirectREG c \<noteq> NaN"
    using cases(2) by (auto simp: direct_share_nonnegative_def)
  show "jlt (walletREG c) (poolLiquidityREG c) \<longrightarrow> walletDirectREG c = Fin 0"
    using cases(3) by blast
  show "\<forall>t l. walletREG c = Fin t \<and> poolLiquidityREG c = Fin l \<longrightarrow>
         walletDirectREG c = fl (max (t - l) 0)
       \<and> (direct_share_exact c \<longleftrightarrow> t \<le> l \<or> binary64 (t - l))"
  proof (intro allI impI)
    fix x y assume xy: "walletREG c = Fin x \<and> poolLiquidityREG c = Fin y"
    then have v: "walletDirectREG c = fl (max (x - y) 0)"
      using cases(4) [of x y] by blast
    have "direct_share_exact c \<longleftrightarrow> x \<le> y \<or> binary64 (x - y)"
    proof (cases "x \<le> y")
      case True
      then show ?thesis by (simp add: direct_share_exact_def xy v max_def fl_zero)
    next
      case False
      then show ?thesis
        by (cases "fl (x - y)") (auto simp: direct_share_exact_def xy v max_def binary64_def)
    qed
    with v show "walletDirectREG c = fl (max (x - y) 0)
       \<and> (direct_share_exact c \<longleftrightarrow> x \<le> y \<or> binary64 (x - y))" by simp
  qed
qed

theorem C2_walletDirectREG_witness:
  "map (\<lambda>c. (profile_address c, walletREG c, poolLiquidityREG c, walletDirectREG c))
     (poolPowerCorrelation c2_balances c2_power) =
       [(''0xC'', Fin 100, Fin 300, Fin 0), (''0xA'', Fin 150, Fin 100, Fin 50)]
   \<and> map direct_share_nonnegative (poolPowerCorrelation c2_balances c2_power) = [True, True]
   \<and> map direct_share_exact (poolPowerCorrelation c2_balances c2_power) = [True, True]"
proof -
  have "map (\<lambda>c. (profile_address c, walletREG c, poolLiquidityREG c))
     (poolPowerCorrelation c2_balances c2_power) =
       [(''0xC'', Fin 100, Fin 300), (''0xA'', Fin 150, Fin 100)]"
    by (simp add: c2_balances_def c2_power_def correlation_defs profile_defs parse_defs fl_evals)
  then obtain c1 c2 where e: "poolPowerCorrelation c2_balances c2_power = [c1, c2]"
    and c1: "profile_address c1 = ''0xC''" "walletREG c1 = Fin 100" "poolLiquidityREG c1 = Fin 300"
    and c2: "profile_address c2 = ''0xA''" "walletREG c2 = Fin 150" "poolLiquidityREG c2 = Fin 100"
    by auto
  from C2_walletDirectREG [of c2_balances c2_power]
  have "\<forall>c \<in> set [c1, c2].
         (direct_share_nonnegative c \<longleftrightarrow> walletDirectREG c \<noteq> NaN)
       \<and> (\<forall>t l. walletREG c = Fin t \<and> poolLiquidityREG c = Fin l \<longrightarrow>
             walletDirectREG c = fl (max (t - l) 0)
           \<and> (direct_share_exact c \<longleftrightarrow> t \<le> l \<or> binary64 (t - l)))"
    unfolding e by blast
  then show ?thesis
    unfolding e by (simp add: c1 c2 fl_evals binary64_numeral)
qed

text \<open>
  The claim as it is written fails.  A position whose amount is not a number is kept and
  makes the liquidity of its wallet NaN: the direct share is NaN, which is neither
  \<open>max(totalREG - poolLiquidityREG, 0)\<close> nor \<open>>= 0\<close>.  And with 1.7 REG of which 0.6 REG are in a
  pool the direct share is the rounded difference (printed \<open>1.1\<close>), not the difference of the
  two amounts.
\<close>

theorem C2_counterexample:
  "map (\<lambda>c. (walletREG c, poolLiquidityREG c, walletDirectREG c))
     (poolPowerCorrelation c2_nan_balances c2_nan_power) = [(Fin 10, NaN, NaN)]
   \<and> map direct_share_nonnegative (poolPowerCorrelation c2_nan_balances c2_nan_power) = [False]
   \<and> map direct_share_exact (poolPowerCorrelation c2_nan_balances c2_nan_power) = [False]
   \<and> map (\<lambda>c. (walletREG c, poolLiquidityREG c, walletDirectREG c))
       (poolPowerCorrelation c2_decimal_balances c2_decimal_power) =
         [(Fin (7656119366529843 / 4503599627370496), Fin (5404319552844595 / 9007199254740992),
           Fin (2476979795053773 / 2251799813685248))]
   \<and> map direct_share_exact (poolPowerCorrelation c2_decimal_balances c2_decimal_power) = [False]"
  by (simp add: c2_nan_balances_def c2_nan_power_def c2_decimal_balances_def
      c2_decimal_power_def correlation_defs profile_defs parse_defs fl_evals decimal_evals
      jadd_NaN jsub_NaN direct_share_nonnegative_def direct_share_exact_def)

text \<open>
  C3, as the code has it.  The wallets of \<open>poolPowerCorrelation\<close> are exactly the wallets of
  the input that have a pool position the filter keeps and a power above 0 (each as often as
  the input lists it).  When no liquidity total of the result is NaN, the result is in
  descending order of \<open>poolLiquidityREG\<close>.
\<close>

theorem C3_poolPowerCorrelation:
  "mset (map profile_address (poolPowerCorrelation balances pv)) =
     mset (map walletAddress
       (filter (\<lambda>w. has_surviving_position w
                   \<and> jlt (Fin 0) (powerValueOf (powerMap pv) (walletAddress w))) balances))
   \<and> ((\<forall>c \<in> set (poolPowerCorrelation balances pv). poolLiquidityREG c \<noteq> NaN) \<longrightarrow>
        descending_liquidity (poolPowerCorrelation balances pv))"
proof
  let ?kept = "filter (\<lambda>item. jlt (Fin 0) (corr_powerVoting item))
                 (map (correlate (powerMap pv)) (addressPoolProfiles balances))"
  let ?cmp = "\<lambda>a b. jsub (poolLiquidityREG b) (poolLiquidityREG a)"
  let ?R = "\<lambda>a b. jle (poolLiquidityREG b) (poolLiquidityREG a)"
  have sorted: "poolPowerCorrelation balances pv = js_sort ?cmp ?kept"
    by (rule poolPowerCorrelation_unfold)
  have "mset (map profile_address (js_sort ?cmp ?kept)) = mset (map profile_address ?kept)"
    by (simp only: mset_map mset_js_sort)
  then show "mset (map profile_address (poolPowerCorrelation balances pv)) =
     mset (map walletAddress
       (filter (\<lambda>w. has_surviving_position w
                   \<and> jlt (Fin 0) (powerValueOf (powerMap pv) (walletAddress w))) balances))"
    by (simp only: sorted correlated_addresses)
  show "(\<forall>c \<in> set (poolPowerCorrelation balances pv). poolLiquidityREG c \<noteq> NaN) \<longrightarrow>
        descending_liquidity (poolPowerCorrelation balances pv)"
  proof
    assume "\<forall>c \<in> set (poolPowerCorrelation balances pv). poolLiquidityREG c \<noteq> NaN"
    then have num: "\<And>c. c \<in> set ?kept \<Longrightarrow> numeric (poolLiquidityREG c)"
      using poolPowerCorrelation_liquidity [of _ balances pv]
      by (metis sorted set_js_sort)
    have "sorted_wrt ?R (js_sort ?cmp ?kept)"
    proof (rule sorted_wrt_js_sort)
      show "\<forall>x \<in> set ?kept. \<forall>y \<in> set ?kept. jlt (Fin 0) (?cmp x y) \<longleftrightarrow> \<not> ?R x y"
        using num by (simp add: jsub_pos_iff flip: numeric_order)
      show "\<forall>x \<in> set ?kept. \<forall>y \<in> set ?kept. ?R x y \<or> ?R y x"
        using num jle_total by blast
      show "\<forall>x \<in> set ?kept. \<forall>y \<in> set ?kept. \<forall>z \<in> set ?kept. ?R x y \<longrightarrow> ?R y z \<longrightarrow> ?R x z"
        using jle_trans by blast
    qed
    then show "descending_liquidity (poolPowerCorrelation balances pv)"
      by (simp only: descending_liquidity_def sorted)
  qed
qed

theorem C3_poolPowerCorrelation_witness:
  "map profile_address (poolPowerCorrelation c3_balances c3_power) = [''0xB'', ''0xA'']
   \<and> map poolLiquidityREG (poolPowerCorrelation c3_balances c3_power) = [Fin 300, Fin 100]
   \<and> descending_liquidity (poolPowerCorrelation c3_balances c3_power)"
proof -
  have a: "map profile_address (poolPowerCorrelation c3_balances c3_power) = [''0xB'', ''0xA'']"
    and l: "map poolLiquidityREG (poolPowerCorrelation c3_balances c3_power) = [Fin 300, Fin 100]"
    by (simp_all add: c3_balances_def c3_power_def correlation_defs profile_defs parse_defs fl_evals)
  have "\<forall>x \<in> set (map poolLiquidityREG (poolPowerCorrelation c3_balances c3_power)). x \<noteq> NaN"
    by (simp only: l) simp
  then have "\<forall>c \<in> set (poolPowerCorrelation c3_balances c3_power). poolLiquidityREG c \<noteq> NaN"
    by simp
  with C3_poolPowerCorrelation [of c3_balances c3_power] a l show ?thesis by blast
qed

text \<open>
  A position whose amount is not a number is kept (NaN is not \<open><= 0\<close>) and makes the
  liquidity of its wallet NaN; the comparator then answers NaN and the order of the input
  stays: a liquidity of 2 follows a liquidity of 1.  No other order of these three would be
  descending either (lemma \<open>descending_liquidity_NaN\<close>).
\<close>

theorem C3_counterexample:
  "map poolLiquidityREG (poolPowerCorrelation c3_nan_balances c3_nan_power) = [Fin 1, NaN, Fin 2]
   \<and> \<not> descending_liquidity (poolPowerCorrelation c3_nan_balances c3_nan_power)"
proof -
  have l: "map poolLiquidityREG (poolPowerCorrelation c3_nan_balances c3_nan_power) = [Fin 1, NaN, Fin 2]"
    by (simp add: c3_nan_balances_def c3_nan_power_def correlation_defs profile_defs parse_defs
        fl_evals jadd_NaN jsub_NaN)
  have "descending_liquidity cs \<longleftrightarrow> sorted_wrt (\<lambda>a b. jle b a) (map poolLiquidityREG cs)" for cs
    by (simp add: descending_liquidity_def sorted_wrt_map)
  with l show ?thesis by simp
qed

text \<open>
  C4.  No position of a wallet's flat position list has \<open>regAmount <= 0\<close>, and the positions
  with \<open>regAmount <= 0\<close> contribute nothing: without them the profiles (position lists,
  liquidity, pool and exchange counts) and the pool analysis (the V2 and V3 totals, counts and
  per-exchange totals, and the number of distinct pools) are the same.
\<close>

theorem C4_skipped_positions:
  "(\<forall>p \<in> set (addressPoolProfiles balances). \<forall>pos \<in> set (positions p).
       \<not> jle (regAmount pos) (Fin 0))
   \<and> addressPoolProfiles (map dropNonPositive balances) = addressPoolProfiles balances
   \<and> poolAnalysis (map dropNonPositive balances) = poolAnalysis balances"
  using addressPoolProfiles_positions [of _ balances]
  by (simp add: addressPoolProfiles_drop poolAnalysis_drop)

theorem C4_skipped_positions_witness:
  "map regAmount (concat (map positions (addressPoolProfiles [c4_wallet]))) = [Fin 5]
   \<and> map dexCount (addressPoolProfiles [dropNonPositive c4_wallet]) = [1]
   \<and> poolAnalysis [dropNonPositive c4_wallet] =
       Some \<lparr> v2 = \<lparr> totalREG = Fin 5, count = 1, dexs = [(''honeyswap'', Fin 5)] \<rparr>,
              v3 = \<lparr> totalREG = Fin 0, count = 0, dexs = [] \<rparr>,
              totalPools = 1 \<rparr>"
proof -
  have p: "map regAmount (concat (map positions (addressPoolProfiles [c4_wallet]))) = [Fin 5]"
    and d: "map dexCount (addressPoolProfiles [c4_wallet]) = [1]"
    by (simp_all add: c4_wallet_def profile_defs parse_defs fl_evals)
  have a: "poolAnalysis [c4_wallet] =
       Some \<lparr> v2 = \<lparr> totalREG = Fin 5, count = 1, dexs = [(''honeyswap'', Fin 5)] \<rparr>,
              v3 = \<lparr> totalREG = Fin 0, count = 0, dexs = [] \<rparr>,
              totalPools = 1 \<rparr>"
    by (simp add: c4_wallet_def analysis_defs profile_defs parse_defs fl_evals)
  from C4_skipped_positions [of "[c4_wallet]"] p d a show ?thesis by simp
qed

text \<open>
  C10.  The pool analysis reads the network \<open>gnosis\<close> only: without the other networks of
  every wallet the analysis is the same.  A wallet with 40 REG in a pool of another network
  and 10 REG in a pool of gnosis has a profile with a liquidity of 50 (10 without the other
  network), and an analysis that counts one position, one pool and 10 REG.
\<close>

theorem C10_gnosis_only:
  "poolAnalysis (map onlyGnosis balances) = poolAnalysis balances
   \<and> map poolLiquidityREG (addressPoolProfiles [c10_wallet]) = [Fin 50]
   \<and> map poolLiquidityREG (addressPoolProfiles [onlyGnosis c10_wallet]) = [Fin 10]
   \<and> poolAnalysis [c10_wallet] =
       Some \<lparr> v2 = \<lparr> totalREG = Fin 10, count = 1, dexs = [(''honeyswap'', Fin 10)] \<rparr>,
              v3 = \<lparr> totalREG = Fin 0, count = 0, dexs = [] \<rparr>,
              totalPools = 1 \<rparr>"
proof (intro conjI)
  show "poolAnalysis (map onlyGnosis balances) = poolAnalysis balances"
    by (rule poolAnalysis_onlyGnosis)
  show "map poolLiquidityREG (addressPoolProfiles [c10_wallet]) = [Fin 50]"
    by (simp add: c10_wallet_def profile_defs parse_defs fl_evals)
  show "map poolLiquidityREG (addressPoolProfiles [onlyGnosis c10_wallet]) = [Fin 10]"
    by (simp add: c10_wallet_def onlyGnosis_def profile_defs parse_defs fl_evals)
  show "poolAnalysis [c10_wallet] =
       Some \<lparr> v2 = \<lparr> totalREG = Fin 10, count = 1, dexs = [(''honeyswap'', Fin 10)] \<rparr>,
              v3 = \<lparr> totalREG = Fin 0, count = 0, dexs = [] \<rparr>,
              totalPools = 1 \<rparr>"
    by (simp add: c10_wallet_def analysis_defs profile_defs parse_defs fl_evals)
qed

text \<open>
  C5, as the code has it.  The resolved amount of a row is read from \<open>totalBalanceREG\<close>
  when that field is truthy (present, not the empty text, not the number 0), else from
  \<open>totalBalance\<close> when that one is truthy, else it is 0.  The statistics count the rows whose
  resolved amount is not NaN, and only those rows are among the top holders: a row whose
  chosen field does not read as a number is left out, with its amount NaN.
\<close>

theorem C5_resolved_amount:
  "(\<forall>b. resolvedBalance b =
        (if truthy (totalBalanceREG b) then parseFloat_String (totalBalanceREG b)
         else if truthy (totalBalance b) then parseFloat_String (totalBalance b)
         else Fin 0))
   \<and> (balanceStats balances = None \<longleftrightarrow>
        filter (\<lambda>b. resolvedBalance b \<noteq> NaN) balances = [])
   \<and> (\<forall>s. balanceStats balances = Some s \<longrightarrow>
        stat_count s = length (filter (\<lambda>b. resolvedBalance b \<noteq> NaN) balances))
   \<and> (\<forall>h \<in> set (topBalanceHolders balances).
        \<exists>b \<in> set balances. resolvedBalance b \<noteq> NaN
          \<and> holder_address h = walletAddress b \<and> balance h = resolvedBalance b)"
proof (intro conjI allI impI ballI)
  fix b
  show "resolvedBalance b =
        (if truthy (totalBalanceREG b) then parseFloat_String (totalBalanceREG b)
         else if truthy (totalBalance b) then parseFloat_String (totalBalance b)
         else Fin 0)"
    by (rule resolvedBalance_cases)
next
  show "balanceStats balances = None \<longleftrightarrow>
        filter (\<lambda>b. resolvedBalance b \<noteq> NaN) balances = []"
    by (rule balanceStats_None)
next
  fix s assume "balanceStats balances = Some s"
  then show "stat_count s = length (filter (\<lambda>b. resolvedBalance b \<noteq> NaN) balances)"
    by (rule balanceStats_count)
next
  fix h assume "h \<in> set (topBalanceHolders balances)"
  then show "\<exists>b \<in> set balances. resolvedBalance b \<noteq> NaN
          \<and> holder_address h = walletAddress b \<and> balance h = resolvedBalance b"
    by (rule topBalanceHolders_member)
qed

theorem C5_resolved_amount_witness:
  "map resolvedBalance c5_good_balances = [Fin 10, Fin 7, Fin 0]
   \<and> map_option stat_count (balanceStats c5_good_balances) = Some 3
   \<and> map holder_address (topBalanceHolders c5_good_balances) = [''0x1'', ''0x2'', ''0x3'']"
proof -
  have r: "map resolvedBalance c5_good_balances = [Fin 10, Fin 7, Fin 0]"
    by (simp add: c5_good_balances_def parse_defs fl_evals)
  have t: "map holder_address (topBalanceHolders c5_good_balances) = [''0x1'', ''0x2'', ''0x3'']"
    by (simp add: c5_good_balances_def topBalanceHolders_def parse_defs fl_evals isNaN_def js_sort_def)
  have ne: "filter (\<lambda>b. resolvedBalance b \<noteq> NaN) c5_good_balances \<noteq> []"
    and len: "length (filter (\<lambda>b. resolvedBalance b \<noteq> NaN) c5_good_balances) = 3"
    by (simp_all add: c5_good_balances_def parse_defs fl_evals)
  note th = C5_resolved_amount [of c5_good_balances]
  from th ne have "balanceStats c5_good_balances \<noteq> None" by blast
  then obtain s where s: "balanceStats c5_good_balances = Some s" by auto
  from th s have "stat_count s = length (filter (\<lambda>b. resolvedBalance b \<noteq> NaN) c5_good_balances)"
    by blast
  with len have "stat_count s = 3" by simp
  with r t s show ?thesis by simp
qed

text \<open>
  A row whose REG total is the text \<open>abc\<close> and whose generic total is 7 resolves to NaN,
  not to 7 and not to 0; it is not counted by the statistics and is no top holder.
\<close>

theorem C5_counterexample:
  "map resolvedBalance c5_balances = [NaN, Fin 10]
   \<and> map_option stat_count (balanceStats c5_balances) = Some 1
   \<and> map_option total (balanceStats c5_balances) = Some (Fin 10)
   \<and> topBalanceHolders c5_balances = [\<lparr> holder_address = ''0x2'', balance = Fin 10 \<rparr>]"
  by (simp add: c5_balances_def topBalanceHolders_def stats_defs parse_defs fl_evals)

text \<open>
  C6 fails in the analysis view.  For a wallet with a position of 0 REG on one exchange and a
  position of 5 REG on another, one (network, exchange) pair has a surviving position and the
  profile of the store counts 1 exchange, but \<open>analyzePoolPositions\<close> counts 2: it adds the
  key of an exchange before it looks at the positions.
\<close>

theorem C6_dexCount_divergence:
  "distinctExchangeCount c6_wallet = 1
   \<and> map dexCount (addressPoolProfiles [c6_wallet]) = [1]
   \<and> map_option summary_dexCount (analyzePoolPositions c6_wallet) = Some 2
   \<and> map_option summary_totalPools (analyzePoolPositions c6_wallet) = Some 1"
  by (simp add: c6_wallet_def distinctExchangeCount_def surviving_pairs_def survives_def
      analyzePoolPositions_def summariseNetwork_def summariseDex_def summarisePosition_def
      profile_defs parse_defs fl_evals Let_def)

text \<open>
  C7, as the code has it.  A search for an address that is not blank leaves one entry for
  the current data, first, and one entry for each snapshot: \<open>n + 1\<close> entries for \<open>n\<close>
  snapshots.  The entry of a snapshot whose load throws is the not-found entry of its date;
  the entry of a snapshot that loads is made from the rows of its two documents.
\<close>

theorem C7_search_entries:
  assumes "trim searchAddress \<noteq> []"
  shows "length (searchAddressAcrossSnapshots fmt load balances pv availableSnapshots searchAddress)
           = length availableSnapshots + 1
       \<and> hd (searchAddressAcrossSnapshots fmt load balances pv availableSnapshots searchAddress)
           = currentEntry balances pv (toLowerCase (trim searchAddress))
       \<and> mset (tl (searchAddressAcrossSnapshots fmt load balances pv availableSnapshots searchAddress))
           = mset (map (snapshotEntry fmt load (toLowerCase (trim searchAddress))) availableSnapshots)
       \<and> (\<forall>s e. load s = Inl e \<longrightarrow>
             snapshotEntry fmt load (toLowerCase (trim searchAddress)) s
               = notFoundEntry (date s) (fmt (date s))
             \<and> \<not> found (snapshotEntry fmt load (toLowerCase (trim searchAddress)) s))
       \<and> (\<forall>s b p. load s = Inr (b, p) \<and> b \<noteq> JNull \<and> p \<noteq> JNull \<longrightarrow>
             snapshotEntry fmt load (toLowerCase (trim searchAddress)) s
               = entryOf (date s) (fmt (date s)) False
                   (findBalance (toLowerCase (trim searchAddress)) (rowsOf b))
                   (findPower (toLowerCase (trim searchAddress)) (rowsOf p)))"
proof -
  note u = search_unfold [OF assms, of fmt load balances pv availableSnapshots]
  have "length (searchAddressAcrossSnapshots fmt load balances pv availableSnapshots searchAddress)
           = length availableSnapshots + 1"
    by (simp add: u length_js_sort)
  moreover have "hd (searchAddressAcrossSnapshots fmt load balances pv availableSnapshots searchAddress)
           = currentEntry balances pv (toLowerCase (trim searchAddress))"
    by (simp add: u)
  moreover have "mset (tl (searchAddressAcrossSnapshots fmt load balances pv availableSnapshots searchAddress))
           = mset (map (snapshotEntry fmt load (toLowerCase (trim searchAddress))) availableSnapshots)"
    by (simp add: u mset_js_sort del: mset_map)
  moreover have "\<forall>s e. load s = Inl e \<longrightarrow>
             snapshotEntry fmt load (toLowerCase (trim searchAddress)) s
               = notFoundEntry (date s) (fmt (date s))
             \<and> \<not> found (snapshotEntry fmt load (toLowerCase (trim searchAddress)) s)"
    by (simp add: snapshotEntry_failed notFoundEntry_def)
  moreover have "\<forall>s b p. load s = Inr (b, p) \<and> b \<noteq> JNull \<and> p \<noteq> JNull \<longrightarrow>
             snapshotEntry fmt load (toLowerCase (trim searchAddress)) s
               = entryOf (date s) (fmt (date s)) False
                   (findBalance (toLowerCase (trim searchAddress)) (rowsOf b))
                   (findPower (toLowerCase (trim searchAddress)) (rowsOf p))"
    by (simp add: snapshotEntry_loaded)
  ultimately show ?thesis by blast
qed

theorem C7_search_entries_witness:
  "trim '' 0xA '' \<noteq> []
   \<and> length (searchAddressAcrossSnapshots c7_fmt c7_load c7_balances c7_power
        [snapshot_of ''01-01-2025'', snapshot_of ''01-02-2025''] '' 0xA '') = 3
   \<and> map found (tl (searchAddressAcrossSnapshots c7_fmt c7_load c7_balances c7_power
        [snapshot_of ''01-01-2025'', snapshot_of ''01-02-2025''] '' 0xA '')) = [True, False]"
proof -
  have t: "trim '' 0xA '' \<noteq> []"
    by (simp add: trim_def is_ws_def)
  have f: "map found (tl (searchAddressAcrossSnapshots c7_fmt c7_load c7_balances c7_power
        [snapshot_of ''01-01-2025'', snapshot_of ''01-02-2025''] '' 0xA '')) = [True, False]"
    by (simp add: search_defs c7_load_def c7_fmt_def c7_balances_def c7_power_def)
  from C7_search_entries [OF t, of c7_fmt c7_load c7_balances c7_power
      "[snapshot_of ''01-01-2025'', snapshot_of ''01-02-2025'']"]
  have "length (searchAddressAcrossSnapshots c7_fmt c7_load c7_balances c7_power
        [snapshot_of ''01-01-2025'', snapshot_of ''01-02-2025''] '' 0xA '') = 3"
    by simp
  with t f show ?thesis by simp
qed

text \<open>
  With three snapshots of which one throws, the results are four, not three: the entry of
  the current data, then the snapshots from the newest to the oldest, the one that failed
  marked not found.
\<close>

theorem C7_counterexample:
  "length (searchAddressAcrossSnapshots c7_fmt c7_load c7_balances c7_power
        [snapshot_of ''01-01-2025'', snapshot_of ''01-03-2025'', snapshot_of ''01-02-2025'']
        ''0xA'') = 4
   \<and> map result_date (searchAddressAcrossSnapshots c7_fmt c7_load c7_balances c7_power
        [snapshot_of ''01-01-2025'', snapshot_of ''01-03-2025'', snapshot_of ''01-02-2025'']
        ''0xA'') = [''Actuel'', ''01-03-2025'', ''01-02-2025'', ''01-01-2025'']
   \<and> map found (searchAddressAcrossSnapshots c7_fmt c7_load c7_balances c7_power
        [snapshot_of ''01-01-2025'', snapshot_of ''01-03-2025'', snapshot_of ''01-02-2025'']
        ''0xA'') = [True, True, True, False]
   \<and> map reg (searchAddressAcrossSnapshots c7_fmt c7_load c7_balances c7_power
        [snapshot_of ''01-01-2025'', snapshot_of ''01-03-2025'', snapshot_of ''01-02-2025'']
        ''0xA'') = [Fin 9, Fin 5, Fin 5, Fin 0]"
  by (simp add: search_defs c7_load_def c7_fmt_def c7_balances_def c7_power_def
      parse_defs fl_evals)

text \<open>
  C8, as the code has it, over the rows of the input.  The values that are binned are the
  resolved amounts above 0 of the rows, in their order (amounts \<open><= 0\<close> and NaN are left out
  before).  A finite value above 0 falls into exactly one of the six ranges; the value
  Infinity is kept but falls into none.  There is no distribution exactly when no row has an
  amount above 0.  Otherwise the six bins have the bounds of the six ranges, the count of a
  bin is the number of rows whose amount is above 0 and within its bounds, and the six counts
  add up to the number of rows whose amount is a finite number above 0.
\<close>

theorem C8_distribution:
  "distributionValues balances = filter (\<lambda>v. jlt (Fin 0) v) (map resolvedBalance balances)
   \<and> (\<forall>x. 0 < x \<longrightarrow> length (ranges_holding (Fin x)) = 1)
   \<and> ranges_holding PInf = []
   \<and> (balanceDistribution balances = None \<longleftrightarrow>
        (\<forall>b \<in> set balances. \<not> jlt (Fin 0) (resolvedBalance b)))
   \<and> (\<forall>bins. balanceDistribution balances = Some bins \<longrightarrow>
         map label bins =
           [''0-100'', ''100-500'', ''500-1000'', ''1000-5000'', ''5000-10000'', ''10000+'']
       \<and> map (\<lambda>b. (bin_min b, bin_max b)) bins = distributionRanges
       \<and> map bin_count bins =
           map (\<lambda>r. length (filter (\<lambda>b. jlt (Fin 0) (resolvedBalance b)
                                       \<and> in_range (resolvedBalance b) r) balances))
             distributionRanges
       \<and> sum_list (map bin_count bins) =
           length (filter (\<lambda>b. finite_positive (resolvedBalance b)) balances))"
proof (intro conjI allI impI)
  show "distributionValues balances = filter (\<lambda>v. jlt (Fin 0) v) (map resolvedBalance balances)"
    by (rule distributionValues_rows)
next
  fix x :: real assume "0 < x"
  then show "length (ranges_holding (Fin x)) = 1" by (rule ranges_holding_finite)
next
  show "ranges_holding PInf = []" by (rule ranges_holding_PInf)
next
  show "balanceDistribution balances = None \<longleftrightarrow>
        (\<forall>b \<in> set balances. \<not> jlt (Fin 0) (resolvedBalance b))"
    by (rule distribution_None_iff)
next
  fix bins assume b: "balanceDistribution balances = Some bins"
  show "map label bins =
      [''0-100'', ''100-500'', ''500-1000'', ''1000-5000'', ''5000-10000'', ''10000+'']"
    by (simp add: distribution_counts(2) [OF b] initialBins_def)
  show "map (\<lambda>b. (bin_min b, bin_max b)) bins = distributionRanges"
    by (rule distribution_ranges [OF b])
  show "map bin_count bins =
      map (\<lambda>r. length (filter (\<lambda>b. jlt (Fin 0) (resolvedBalance b)
                                  \<and> in_range (resolvedBalance b) r) balances))
        distributionRanges"
    by (rule distribution_row_counts [OF b])
  show "sum_list (map bin_count bins) =
      length (filter (\<lambda>b. finite_positive (resolvedBalance b)) balances)"
    by (rule distribution_row_total [OF b])
qed

theorem C8_distribution_witness:
  "map resolvedBalance c8_good_balances =
       [Fin (199 / 2), Fin 100, Fin 20000, Fin (- 3), Fin 7, NaN, Fin 0]
   \<and> map_option (map bin_count) (balanceDistribution c8_good_balances) = Some [2, 1, 0, 0, 0, 1]
   \<and> map_option (map label) (balanceDistribution c8_good_balances) =
       Some [''0-100'', ''100-500'', ''500-1000'', ''1000-5000'', ''5000-10000'', ''10000+'']
   \<and> length (filter (\<lambda>b. finite_positive (resolvedBalance b)) c8_good_balances) = 4"
proof -
  have r: "map resolvedBalance c8_good_balances =
       [Fin (199 / 2), Fin 100, Fin 20000, Fin (- 3), Fin 7, NaN, Fin 0]"
    by (simp add: c8_good_balances_def wallet_with_def parse_defs fl_evals jneg_def)
  have rows: "length (filter (\<lambda>b. Q (resolvedBalance b)) c8_good_balances) =
      length (filter Q (map resolvedBalance c8_good_balances))" for Q
    by (simp add: filter_map comp_def)
  have "(\<forall>b \<in> set c8_good_balances. \<not> jlt (Fin 0) (resolvedBalance b)) \<longleftrightarrow>
      (\<forall>v \<in> set (map resolvedBalance c8_good_balances). \<not> jlt (Fin 0) v)"
    by simp
  also have "\<dots> \<longleftrightarrow> False"
    by (simp only: r) simp
  finally have "balanceDistribution c8_good_balances \<noteq> None"
    using C8_distribution [of c8_good_balances] by blast
  then obtain bins where b: "balanceDistribution c8_good_balances = Some bins" by auto
  with C8_distribution [of c8_good_balances]
  have "map label bins =
        [''0-100'', ''100-500'', ''500-1000'', ''1000-5000'', ''5000-10000'', ''10000+'']"
    and "map bin_count bins =
      map (\<lambda>r. length (filter (\<lambda>b. jlt (Fin 0) (resolvedBalance b)
                                  \<and> in_range (resolvedBalance b) r) c8_good_balances))
        distributionRanges"
    by blast+
  moreover have "length (filter (\<lambda>b. jlt (Fin 0) (resolvedBalance b)
                                  \<and> in_range (resolvedBalance b) r) c8_good_balances) =
      length (filter (\<lambda>v. jlt (Fin 0) v \<and> in_range v r)
        [Fin (199 / 2), Fin 100, Fin 20000, Fin (- 3), Fin 7, NaN, Fin 0])" for r
    using rows [of "\<lambda>v. jlt (Fin 0) v \<and> in_range v r"] by (simp only: r)
  then have "map (\<lambda>r. length (filter (\<lambda>b. jlt (Fin 0) (resolvedBalance b)
                                  \<and> in_range (resolvedBalance b) r) c8_good_balances))
        distributionRanges = [2, 1, 0, 0, 0, 1]"
    by (simp add: distributionRanges_def in_range_def)
  moreover have "length (filter (\<lambda>b. finite_positive (resolvedBalance b)) c8_good_balances) = 4"
    using rows [of finite_positive] by (simp only: r) (simp add: finite_positive_def)
  ultimately show ?thesis using r b by simp
qed

text \<open>
  A balance written \<open>Infinity\<close> is an amount above 0 and falls into no range: of the three
  rows two have an amount above 0, and the six counts add up to one.
\<close>

theorem C8_counterexample:
  "map resolvedBalance c8_balances = [Fin 250, PInf, Fin 0]
   \<and> length (filter (\<lambda>b. jlt (Fin 0) (resolvedBalance b)) c8_balances) = 2
   \<and> map (\<lambda>b. length (ranges_holding (resolvedBalance b)))
       (filter (\<lambda>b. jlt (Fin 0) (resolvedBalance b)) c8_balances) = [1, 0]
   \<and> map_option (map bin_count) (balanceDistribution c8_balances) = Some [0, 1, 0, 0, 0, 0]"
  by (simp add: c8_balances_def balanceDistribution_def distributionValues_def isNaN_def
      wallet_with_def initialBins_def in_bin_def ranges_holding_def distributionRanges_def
      in_range_def parse_defs fl_evals)

text \<open>
  C9, as the code has it.  The standard deviation is the square root of the sum of the squared
  deviations from the mean divided by the count, each operation rounded to binary64; for
  whole numbers (sums within 53 bits, whole mean) it is the rounded square root of the rounded
  population variance.  For a single finite value it is 0, and for the sample 10, 30 it is 10.
\<close>

theorem C9_stdDev:
  "stdDev (statsOf values) =
     Math_sqrt (jdiv (foldl (\<lambda>sum val. jadd sum (Math_pow2 (jsub val (mean (statsOf values)))))
                       (Fin 0) values)
                (Fin (real (length values))))
   \<and> (ks \<noteq> [] \<and> sum_list (map abs ks) \<le> 2 ^ 53 \<and> int (length ks) dvd sum_list ks
        \<and> sum_list (map (\<lambda>k. (k - sum_list ks div int (length ks)) ^ 2) ks) \<le> 2 ^ 53 \<longrightarrow>
      stdDev (statsOf (map (\<lambda>k. Fin (of_int k)) ks)) =
        Math_sqrt (fl (population_variance (map of_int ks))))
   \<and> (\<forall>v. binary64 v \<longrightarrow> stdDev (statsOf [Fin v]) = Fin 0)
   \<and> stdDev (statsOf [Fin 10, Fin 30]) = Fin 10"
proof (intro conjI allI impI)
  show "stdDev (statsOf values) =
     Math_sqrt (jdiv (foldl (\<lambda>sum val. jadd sum (Math_pow2 (jsub val (mean (statsOf values)))))
                       (Fin 0) values)
                (Fin (real (length values))))"
    by (simp add: stdDev_statsOf mean_statsOf variance_def Let_def)
next
  assume "ks \<noteq> [] \<and> sum_list (map abs ks) \<le> 2 ^ 53 \<and> int (length ks) dvd sum_list ks
        \<and> sum_list (map (\<lambda>k. (k - sum_list ks div int (length ks)) ^ 2) ks) \<le> 2 ^ 53"
  then show "stdDev (statsOf (map (\<lambda>k. Fin (of_int k)) ks)) =
        Math_sqrt (fl (population_variance (map of_int ks)))"
    by (intro stdDev_whole_numbers) simp_all
next
  fix v :: real assume "binary64 v"
  then show "stdDev (statsOf [Fin v]) = Fin 0" by (rule stdDev_single)
next
  show "stdDev (statsOf [Fin 10, Fin 30]) = Fin 10" by (rule stdDev_10_30)
qed

theorem C9_stdDev_witness:
  "balanceValues scenario_d_balances = [Fin 10, Fin 30]
   \<and> population_variance [10, 30] = 100
   \<and> map_option stdDev (balanceStats scenario_d_balances) = Some (Fin 10)
   \<and> map_option mean (balanceStats scenario_d_balances) = Some (Fin 20)
   \<and> binary64 7 \<and> stdDev (statsOf [Fin 7]) = Fin 0"
proof -
  have v: "balanceValues scenario_d_balances = [Fin 10, Fin 30]"
    by (simp add: scenario_d_balances_def balanceValues_def isNaN_def wallet_with_def
        parse_defs fl_evals)
  have p: "population_variance [10, 30] = 100"
    by (simp add: population_variance_def)
  have ne: "scenario_d_balances \<noteq> []" by (simp add: scenario_d_balances_def)
  have m: "map_option mean (balanceStats scenario_d_balances) = Some (Fin 20)"
    by (simp add: balanceStats_def v ne mean_statsOf sum_values_def jdiv_Fin fl_evals)
  have b: "binary64 7" by (simp add: binary64_numeral)
  note th = C9_stdDev [of "[Fin 10, Fin 30]" "[10, 30]"]
  from th have "stdDev (statsOf [Fin 10, Fin 30]) = Fin 10" by blast
  then have s: "map_option stdDev (balanceStats scenario_d_balances) = Some (Fin 10)"
    by (simp add: balanceStats_def v ne)
  from th b have "stdDev (statsOf [Fin 7]) = Fin 0" by blast
  with v p s m b show ?thesis by simp
qed

text \<open>
  A single row whose balance is written \<open>Infinity\<close> is a sample of one value; its mean is
  Infinity and its standard deviation is NaN, not 0.
\<close>

theorem C9_counterexample:
  "balanceValues c9_balances = [PInf]
   \<and> map_option stat_count (balanceStats c9_balances) = Some 1
   \<and> map_option mean (balanceStats c9_balances) = Some PInf
   \<and> map_option stdDev (balanceStats c9_balances) = Some NaN"
  by (simp add: c9_balances_def wallet_with_def stats_defs parse_defs jadd_def jsub_def jdiv_def
      jmul_def Math_pow2_def Math_sqrt_def)

end
